theory Spec2Isabelle
  imports Complex_Main
begin

section \<open>Nicotine decay tracker: embedding of main.py\<close>

text \<open>
  Modelling conventions.
  \<^item> A Python float is a \<^typ>\<open>real\<close>, so rounding to 53 bits is left out. The range of a
    double is kept where an amount is computed: \<open>to_double\<close> turns a result above the largest
    double into \<open>None\<close> (\<open>inf\<close>) and a result of at most half the smallest subnormal into
    \<open>0.0\<close>; \<open>None\<close> also stands for \<open>nan\<close>.
  \<^item> A naive \<open>datetime\<close> is an integer count of microseconds from the start of day 0 of the
    proleptic Gregorian calendar, a \<open>date\<close> the day number (its ordinal), a \<open>timedelta\<close> an
    integer count of microseconds. \<open>datetime\<close> reaches from day 1 to day 3652059 (years 1 to
    9999) and \<open>timedelta\<close> up to 999999999 days either way: an addition that leaves the range
    raises \<open>OverflowError\<close>.
  \<^item> \<open>st.error(msg); st.stop()\<close> is the result \<open>Inl (Stopped msg)\<close>; an exception raised by
    a library call is \<open>Inl (Raised e)\<close>; a completed run is \<open>Inr\<close> of what was handed to
    the chart and the two text columns.
  \<^item> The two clock reads of the script, \<open>date.today()\<close> and \<open>datetime.now()\<close>, are
    parameters \<open>today\<close> and \<open>now\<close>; the widget values are parameters as well. The ranges
    the widgets enforce (dose at least 0, horizon at least 1, 50 to 1000 sample points, a date
    not after today) are not built in: a theorem that needs one states it.
  \<^item> Page layout, chart styling and the formatting of numbers into text are left out.
\<close>

subsection \<open>Dates, times of day and durations\<close>

type_synonym date = int
type_synonym datetime = int
type_synonym timedelta = int

record clock_time =
  hour :: nat
  minute :: nat
  second :: nat
  microsecond :: nat

text \<open>\<open>time(h, m)\<close>: seconds and microseconds default to zero.\<close>

definition time_hm :: "nat \<Rightarrow> nat \<Rightarrow> clock_time" where
  "time_hm h m = \<lparr>hour = h, minute = m, second = 0, microsecond = 0\<rparr>"

definition us_per_day :: int where
  "us_per_day = 86400000000"

definition us_per_hour :: int where
  "us_per_hour = 3600000000"

text \<open>\<open>datetime.combine(d, t)\<close>.\<close>

definition datetime_combine :: "date \<Rightarrow> clock_time \<Rightarrow> datetime" where
  "datetime_combine d t =
     d * us_per_day
     + int (((hour t * 60 + minute t) * 60 + second t) * 1000000 + microsecond t)"

text \<open>Rounding to the nearest integer, ties to the even neighbour, as \<open>timedelta\<close> rounds.\<close>

definition round_half_even :: "real \<Rightarrow> int" where
  "round_half_even x =
     (let f = \<lfloor>x\<rfloor>; d = x - of_int f
      in if d < 1 / 2 then f
         else if 1 / 2 < d then f + 1
         else if even f then f else f + 1)"

text \<open>\<open>timedelta(hours=h)\<close>: the duration in whole microseconds.\<close>

definition timedelta_hours :: "real \<Rightarrow> timedelta" where
  "timedelta_hours h = round_half_even (h * of_int us_per_hour)"

text \<open>\<open>td.total_seconds()\<close>.\<close>

definition total_seconds :: "timedelta \<Rightarrow> real" where
  "total_seconds td = of_int td / 1000000"

text \<open>
  A \<open>datetime\<close> lies between 0001-01-01 00:00 and 9999-12-31 23:59:59.999999, a
  \<open>timedelta\<close> between -999999999 days and 999999999 days 23:59:59.999999.
\<close>

definition valid_datetime :: "datetime \<Rightarrow> bool" where
  "valid_datetime x \<longleftrightarrow> 1 * us_per_day \<le> x \<and> x < 3652060 * us_per_day"

definition timedelta_in_range :: "timedelta \<Rightarrow> bool" where
  "timedelta_in_range td \<longleftrightarrow> - (999999999 * us_per_day) \<le> td \<and> td < 1000000000 * us_per_day"

subsection \<open>Errors\<close>

datatype py_error = ValueError | ZeroDivisionError | IndexError | OverflowError

datatype halt = Stopped string | Raised py_error

text \<open>
  \<open>x + timedelta(hours=hr)\<close>: the constructor raises when the duration is out of range, the
  addition when the sum is.
\<close>

definition plus_hours :: "datetime \<Rightarrow> real \<Rightarrow> py_error + datetime" where
  "plus_hours x hr =
     (let td = timedelta_hours hr
      in if \<not> timedelta_in_range td then Inl OverflowError
         else if \<not> valid_datetime (x + td) then Inl OverflowError
         else Inr (x + td))"

text \<open>A list comprehension or a loop over fallible steps: the first exception ends it.\<close>

fun sequence :: "('e + 'a) list \<Rightarrow> 'e + 'a list" where
  "sequence [] = Inr []"
| "sequence (x # xs) =
     (case x of
        Inl e \<Rightarrow> Inl e
      | Inr v \<Rightarrow> (case sequence xs of Inl e \<Rightarrow> Inl e | Inr vs \<Rightarrow> Inr (v # vs)))"

subsection \<open>Doubles\<close>

definition max_double :: real where
  "max_double = (2 - 1 / 2 ^ 52) * 2 ^ 1023"

definition underflow_limit :: real where
  "underflow_limit = 1 / 2 ^ 1075"

text \<open>
  The double a real result is stored as, rounding apart: \<open>None\<close> when it overflows to
  \<open>inf\<close>, \<open>0.0\<close> when it is at most half the smallest subnormal \<open>2 ^ -1074\<close>.
\<close>

definition to_double :: "real \<Rightarrow> real option" where
  "to_double x =
     (if max_double < \<bar>x\<bar> then None
      else if \<bar>x\<bar> \<le> underflow_limit then Some 0
      else Some x)"

subsection \<open>The decay evaluator\<close>

text \<open>
  \<open>numpy.linspace(start, stop, num)\<close> with the default \<open>endpoint=True\<close>: \<open>num\<close> samples
  \<open>start + i * step\<close> with \<open>step = (stop - start) / (num - 1)\<close>, the last one overwritten with
  \<open>stop\<close>; a single sample is \<open>start\<close>; a negative \<open>num\<close> raises \<open>ValueError\<close>.
\<close>

definition linspace :: "real \<Rightarrow> real \<Rightarrow> int \<Rightarrow> py_error + real list" where
  "linspace start stop num =
     (if num < 0 then Inl ValueError
      else
        let divisor = num - 1;
            delta = stop - start;
            y = map (\<lambda>i. (if 0 < divisor then real i * (delta / of_int divisor) else real i * delta) + start)
                    [0 ..< nat num]
        in Inr (if 1 < num then y[nat num - 1 := stop] else y))"

text \<open>
  Line 97, one element of \<open>dose_amount * (0.5 ** (time_array / half_life))\<close>. numpy raises
  nothing: dividing by a zero half-life gives \<open>nan\<close> at \<open>t = 0\<close>, \<open>inf\<close> for a positive
  \<open>t\<close> (and \<open>0.5 ** inf\<close> is \<open>0.0\<close>) and \<open>-inf\<close> for a negative one (and \<open>0.5 ** -inf\<close> is
  \<open>inf\<close>); a power that overflows is \<open>inf\<close>; and a product with \<open>inf\<close> or \<open>nan\<close> is not
  finite.
\<close>

definition remaining_at :: "real \<Rightarrow> real \<Rightarrow> real \<Rightarrow> real option" where
  "remaining_at dose_amount half_life t =
     (let power = (if half_life = 0 then (if 0 < t then Some 0 else None)
                   else to_double ((1 / 2) powr (t / half_life)))
      in case power of None \<Rightarrow> None | Some p \<Rightarrow> to_double (dose_amount * p))"

text \<open>
  \<open>calculate_nicotine_decay\<close> reads the global \<open>dose_datetime\<close>; it is the first parameter
  here. Line 96 raises for a negative sample count, line 98 when a timestamp leaves the range
  of \<open>datetime\<close>.
\<close>

definition calculate_nicotine_decay ::
  "datetime \<Rightarrow> real \<Rightarrow> real \<Rightarrow> real \<Rightarrow> real \<Rightarrow> int
     \<Rightarrow> py_error + (real list \<times> real option list \<times> datetime list)" where
  "calculate_nicotine_decay dose_datetime dose_amount half_life time_diff future_time time_points =
     (let total_hours = time_diff + future_time
      in case linspace 0 total_hours time_points of
           Inl e \<Rightarrow> Inl e
         | Inr time_array \<Rightarrow>
             let remaining_amount = map (remaining_at dose_amount half_life) time_array
             in case sequence (map (plus_hours dose_datetime) time_array) of
                  Inl e \<Rightarrow> Inl e
                | Inr timestamps \<Rightarrow> Inr (time_array, remaining_amount, timestamps))"

text \<open>
  Line 107, the scalar under the red marker. Python's float division raises
  \<open>ZeroDivisionError\<close> on a zero divisor and its float power \<open>OverflowError\<close> when the result
  overflows; a product that overflows is \<open>inf\<close>.
\<close>

definition current_remaining_amount :: "real \<Rightarrow> real \<Rightarrow> real \<Rightarrow> py_error + real option" where
  "current_remaining_amount dose_amount half_life time_diff =
     (if half_life = 0 then Inl ZeroDivisionError
      else case to_double ((1 / 2) powr (time_diff / half_life)) of
             None \<Rightarrow> Inl OverflowError
           | Some p \<Rightarrow> Inr (to_double (dose_amount * p)))"

subsection \<open>Milestones\<close>

record milestone =
  time :: real
  label :: string

definition milestones :: "milestone list" where
  "milestones =
     [\<lparr>time = 33 / 100, label = ''Heart Rate Normalizes''\<rparr>,
      \<lparr>time = 8, label = ''Oxygen Levels Normalize''\<rparr>,
      \<lparr>time = 24, label = ''Carbon Monoxide Eliminated''\<rparr>,
      \<lparr>time = 48, label = ''Improved Taste''\<rparr>,
      \<lparr>time = 72, label = ''Cravings Drop''\<rparr>,
      \<lparr>time = 120, label = ''Lungs Improve''\<rparr>,
      \<lparr>time = 168, label = ''Energy Increased''\<rparr>,
      \<lparr>time = 336, label = ''Improved Circulation''\<rparr>,
      \<lparr>time = 720, label = ''Lung Health Improvement''\<rparr>]"

text \<open>
  Both loops over the table start with
  \<open>milestone_time = dose_datetime + timedelta(hours=milestone["time"])\<close>.
\<close>

definition milestone_time :: "datetime \<Rightarrow> milestone \<Rightarrow> datetime" where
  "milestone_time dose_datetime m = dose_datetime + timedelta_hours (time m)"

text \<open>\<open>xs[-1]\<close>: the last element, \<open>IndexError\<close> on an empty array.\<close>

definition last_elem :: "'a list \<Rightarrow> py_error + 'a" where
  "last_elem xs = (case xs of [] \<Rightarrow> Inl IndexError | _ # _ \<Rightarrow> Inr (last xs))"

text \<open>
  Lines 148 to 161, one round of the loop: a chart marker, at height 0, when the milestone's
  time lies between the dose and the end of the sampled span. The chained comparison reads
  \<open>time_array[-1]\<close> only after its first half holds.
\<close>

definition plot_step ::
  "datetime \<Rightarrow> real list \<Rightarrow> milestone \<Rightarrow> py_error + (datetime \<times> string) option" where
  "plot_step dose_datetime time_array m =
     (case plus_hours dose_datetime (time m) of
        Inl e \<Rightarrow> Inl e
      | Inr mt \<Rightarrow>
          if dose_datetime \<le> mt then
            (case last_elem time_array of
               Inl e \<Rightarrow> Inl e
             | Inr last_hours \<Rightarrow>
                 (case plus_hours dose_datetime last_hours of
                    Inl e \<Rightarrow> Inl e
                  | Inr span_end \<Rightarrow> Inr (if mt \<le> span_end then Some (mt, label m) else None)))
          else Inr None)"

definition plot_loop :: "datetime \<Rightarrow> real list \<Rightarrow> py_error + (datetime \<times> string) list" where
  "plot_loop dose_datetime time_array =
     (case sequence (map (plot_step dose_datetime time_array) milestones) of
        Inl e \<Rightarrow> Inl e
      | Inr placed \<Rightarrow> Inr (List.map_filter id placed))"

text \<open>
  Lines 192 to 198: the text column. A milestone gets an ``in ... hours'' line, an
  ``achieved at'' line, or no line at all.
\<close>

datatype milestone_line =
    Upcoming string real datetime
  | Achieved string datetime

definition classify :: "datetime \<Rightarrow> datetime \<Rightarrow> real \<Rightarrow> milestone \<Rightarrow> milestone_line option" where
  "classify dose_datetime current_datetime future_time m =
     (let mt = milestone_time dose_datetime m
      in if current_datetime < mt \<and> mt \<le> current_datetime + timedelta_hours future_time
         then
           let hours_left = total_seconds (mt - current_datetime) / 3600
           in Some (Upcoming (label m) hours_left mt)
         else if mt \<le> current_datetime
         then Some (Achieved (label m) mt)
         else None)"

definition milestone_lines :: "datetime \<Rightarrow> datetime \<Rightarrow> real \<Rightarrow> milestone_line list" where
  "milestone_lines dose_datetime current_datetime future_time =
     List.map_filter (classify dose_datetime current_datetime future_time) milestones"

text \<open>
  The same round with the exceptions of its two additions: \<open>and\<close> evaluates
  \<open>current_datetime + timedelta(hours=future_time)\<close> only when the milestone is still ahead.
\<close>

definition text_step ::
  "datetime \<Rightarrow> datetime \<Rightarrow> real \<Rightarrow> milestone \<Rightarrow> py_error + milestone_line option" where
  "text_step dose_datetime current_datetime future_time m =
     (case plus_hours dose_datetime (time m) of
        Inl e \<Rightarrow> Inl e
      | Inr mt \<Rightarrow>
          if current_datetime < mt then
            (case plus_hours current_datetime future_time of
               Inl e \<Rightarrow> Inl e
             | Inr horizon \<Rightarrow>
                 Inr (if mt \<le> horizon
                      then Some (Upcoming (label m)
                                   (total_seconds (mt - current_datetime) / 3600) mt)
                      else None))
          else Inr (Some (Achieved (label m) mt)))"

definition text_loop :: "datetime \<Rightarrow> datetime \<Rightarrow> real \<Rightarrow> py_error + milestone_line list" where
  "text_loop dose_datetime current_datetime future_time =
     (case sequence (map (text_step dose_datetime current_datetime future_time) milestones) of
        Inl e \<Rightarrow> Inl e
      | Inr shown \<Rightarrow> Inr (List.map_filter id shown))"

subsection \<open>The script\<close>

record rendered =
  curve_hours :: "real list"
  curve_amounts :: "real option list"
  curve_timestamps :: "datetime list"
  level_now :: "real option"
  markers :: "(datetime \<times> string) list"
  lines :: "milestone_line list"

definition run ::
  "date \<Rightarrow> datetime \<Rightarrow> real \<Rightarrow> date \<Rightarrow> clock_time \<Rightarrow> real \<Rightarrow> int \<Rightarrow> halt + rendered" where
  "run today now dose_amount dose_date dose_time future_time time_points =
     (let half_life = 2;
          placeholder_date = today;
          placeholder_time = time_hm 0 0
      in if dose_date = placeholder_date \<and> dose_time = placeholder_time
         then Inl (Stopped ''Please enter the date and time of your last nicotine use.'')
         else
           let dose_datetime = datetime_combine dose_date dose_time;
               current_datetime = now;
               time_diff = total_seconds (current_datetime - dose_datetime) / 3600
           in if time_diff < 0
              then Inl (Stopped ''Last nicotine use time cannot be in the future.'')
              else
                case calculate_nicotine_decay dose_datetime dose_amount half_life
                       time_diff future_time time_points of
                  Inl e \<Rightarrow> Inl (Raised e)
                | Inr (time_array, remaining_amount, timestamps) \<Rightarrow>
                    (case current_remaining_amount dose_amount half_life time_diff of
                       Inl e \<Rightarrow> Inl (Raised e)
                     | Inr current \<Rightarrow>
                         (case plot_loop dose_datetime time_array of
                            Inl e \<Rightarrow> Inl (Raised e)
                          | Inr placed \<Rightarrow>
                              (case text_loop dose_datetime current_datetime future_time of
                                 Inl e \<Rightarrow> Inl (Raised e)
                               | Inr shown \<Rightarrow>
                                   Inr \<lparr>curve_hours = time_array,
                                        curve_amounts = remaining_amount,
                                        curve_timestamps = timestamps,
                                        level_now = current,
                                        markers = placed,
                                        lines = shown\<rparr>))))"

section \<open>Auxiliary facts\<close>

subsection \<open>Rounding, durations and the range of a datetime\<close>

lemma round_half_even_bounds: "\<lfloor>x\<rfloor> \<le> round_half_even x \<and> round_half_even x \<le> \<lfloor>x\<rfloor> + 1"
  by (simp add: round_half_even_def Let_def)

lemma round_half_even_mono:
  assumes "x \<le> y"
  shows "round_half_even x \<le> round_half_even y"
proof (cases "\<lfloor>x\<rfloor> = \<lfloor>y\<rfloor>")
  case True
  then have "x - of_int \<lfloor>x\<rfloor> \<le> y - of_int \<lfloor>y\<rfloor>" using assms by simp
  then show ?thesis using True
    by (simp add: round_half_even_def Let_def)
next
  case False
  then have "\<lfloor>x\<rfloor> + 1 \<le> \<lfloor>y\<rfloor>" using floor_mono [OF assms] by linarith
  then show ?thesis
    using round_half_even_bounds [of x] round_half_even_bounds [of y] by linarith
qed

lemma round_half_even_zero [simp]: "round_half_even 0 = 0"
  by (simp add: round_half_even_def)

lemma round_half_even_error: "\<bar>of_int (round_half_even x) - x\<bar> \<le> 1 / 2"
proof -
  have "of_int \<lfloor>x\<rfloor> \<le> x" "x < of_int \<lfloor>x\<rfloor> + 1" by linarith+
  then show ?thesis
    by (simp add: round_half_even_def Let_def)
qed

lemma round_half_even_of_int [simp]: "round_half_even (of_int k) = k"
  by (simp add: round_half_even_def)

lemma timedelta_hours_mono: "a \<le> b \<Longrightarrow> timedelta_hours a \<le> timedelta_hours b"
  unfolding timedelta_hours_def
  by (rule round_half_even_mono) (simp add: us_per_hour_def)

lemma timedelta_hours_zero [simp]: "timedelta_hours 0 = 0"
  by (simp add: timedelta_hours_def)

lemma timedelta_hours_error:
  "\<bar>of_int (timedelta_hours hr) - hr * of_int us_per_hour\<bar> \<le> 1 / 2"
  unfolding timedelta_hours_def by (rule round_half_even_error)

lemma timedelta_hours_of_int: "timedelta_hours (of_int k) = k * us_per_hour"
proof -
  have "timedelta_hours (of_int k) = round_half_even (of_int (k * us_per_hour))"
    by (simp add: timedelta_hours_def)
  then show ?thesis by (simp only: round_half_even_of_int)
qed

lemma timedelta_hours_first: "timedelta_hours (33 / 100) = 1188000000"
  by (simp add: timedelta_hours_def us_per_hour_def round_half_even_def Let_def)

lemma total_seconds_negative: "total_seconds (now - dose_datetime) < 0 \<longleftrightarrow> now < dose_datetime"
  by (simp add: total_seconds_def)

lemma time_diff_nonneg:
  "dose_datetime \<le> now \<Longrightarrow> 0 \<le> total_seconds (now - dose_datetime) / 3600"
  by (simp add: total_seconds_def)

lemma datetime_combine_midnight:
  assumes "hour t < 24" "minute t < 60" "second t < 60" "microsecond t < 1000000"
    and "datetime_combine d t = datetime_combine today (time_hm 0 0)"
  shows "d = today \<and> t = time_hm 0 0"
proof -
  let ?s = "((hour t * 60 + minute t) * 60 + second t) * 1000000 + microsecond t"
  define mins where "mins = hour t * 60 + minute t"
  define secs where "secs = mins * 60 + second t"
  have "mins \<le> 1439" unfolding mins_def using assms(1,2) by linarith
  then have "secs \<le> 86399" unfolding secs_def using assms(3) by linarith
  then have "secs * 1000000 + microsecond t \<le> 86399999999" using assms(4) by linarith
  then have bound: "int ?s < 86400000000" unfolding secs_def mins_def by linarith
  have eq: "d * 86400000000 + int ?s = today * 86400000000"
    using assms(5) by (simp add: datetime_combine_def us_per_day_def time_hm_def)
  have d: "d = today"
  proof (rule ccontr)
    assume "d \<noteq> today"
    then consider "d + 1 \<le> today" | "today + 1 \<le> d" by linarith
    then show False
    proof cases
      case 1
      then have "(d + 1) * 86400000000 \<le> today * 86400000000" by (rule mult_right_mono) simp
      then show False using eq bound by (simp add: distrib_right)
    next
      case 2
      then have "(today + 1) * 86400000000 \<le> d * 86400000000" by (rule mult_right_mono) simp
      then show False using eq by (simp add: distrib_right)
    qed
  qed
  then have "?s = 0" using eq by simp
  then have "hour t = 0 \<and> minute t = 0 \<and> second t = 0 \<and> microsecond t = 0" by simp
  then have "t = time_hm 0 0" by (cases t) (simp add: time_hm_def)
  with d show ?thesis by simp
qed

lemma plus_hours_error: "plus_hours x hr = Inl e \<Longrightarrow> e = OverflowError"
  by (auto simp: plus_hours_def Let_def split: if_splits)

lemma plus_hours_Inr_iff:
  "plus_hours x hr = Inr y \<longleftrightarrow>
     timedelta_in_range (timedelta_hours hr) \<and> valid_datetime (x + timedelta_hours hr)
     \<and> y = x + timedelta_hours hr"
  by (auto simp: plus_hours_def Let_def)

lemma plus_hours_within:
  assumes "valid_datetime x" and "0 \<le> hr" and "hr \<le> tot"
    and "valid_datetime (x + timedelta_hours tot)"
  shows "plus_hours x hr = Inr (x + timedelta_hours hr)"
proof -
  have lo: "0 \<le> timedelta_hours hr"
    using timedelta_hours_mono [OF assms(2)] by simp
  have hi: "timedelta_hours hr \<le> timedelta_hours tot"
    by (rule timedelta_hours_mono [OF assms(3)])
  have x: "1 * us_per_day \<le> x" and e: "x + timedelta_hours tot < 3652060 * us_per_day"
    using assms(1,4) by (simp_all add: valid_datetime_def)
  have "valid_datetime (x + timedelta_hours hr)"
    unfolding valid_datetime_def using x e lo hi by linarith
  moreover have "timedelta_hours hr < 3652060 * us_per_day" using x e hi
    unfolding us_per_day_def by linarith
  then have "timedelta_in_range (timedelta_hours hr)"
    unfolding timedelta_in_range_def us_per_day_def using lo by linarith
  ultimately show ?thesis by (simp add: plus_hours_Inr_iff)
qed

subsection \<open>Loops over fallible steps\<close>

lemma sequence_map_Inr:
  assumes "\<forall>x \<in> set xs. f x = Inr (g x)"
  shows "sequence (map f xs) = Inr (map g xs)"
  using assms by (induction xs) simp_all

lemma sequence_map_Inl:
  assumes "x \<in> set xs" and "f x = Inl e"
    and only: "\<And>y e'. f y = Inl e' \<Longrightarrow> e' = e"
  shows "sequence (map f xs) = Inl e"
  using assms(1)
proof (induction xs)
  case Nil
  then show ?case by simp
next
  case (Cons a xs)
  show ?case
  proof (cases "f a")
    case (Inl e')
    then have "e' = e" by (rule only)
    then show ?thesis using Inl by simp
  next
    case (Inr v)
    then have "x \<noteq> a" using assms(2) by auto
    then have "x \<in> set xs" using Cons.prems by simp
    then have "sequence (map f xs) = Inl e" by (rule Cons.IH)
    then show ?thesis using Inr by simp
  qed
qed

lemma sequence_Inr_length: "sequence xs = Inr ys \<Longrightarrow> length ys = length xs"
proof (induction xs arbitrary: ys)
  case Nil
  then show ?case by simp
next
  case (Cons x xs)
  then show ?case by (auto split: sum.splits)
qed

lemma sequence_Inr_nth:
  "sequence xs = Inr ys \<Longrightarrow> i < length xs \<Longrightarrow> xs ! i = Inr (ys ! i)"
proof (induction xs arbitrary: ys i)
  case Nil
  then show ?case by simp
next
  case (Cons x xs)
  from Cons.prems(1) obtain v vs where x: "x = Inr v" and vs: "sequence xs = Inr vs"
    and ys: "ys = v # vs"
    by (auto split: sum.splits)
  show ?case
  proof (cases i)
    case 0
    then show ?thesis using x ys by simp
  next
    case (Suc j)
    then have "j < length xs" using Cons.prems(2) by simp
    then have "xs ! j = Inr (vs ! j)" using Cons.IH [OF vs] by simp
    then show ?thesis using Suc ys by simp
  qed
qed

lemma map_filter_id_map: "List.map_filter id (map f xs) = List.map_filter f xs"
  by (induction xs) (simp_all add: List.map_filter_simps id_def split: option.splits)

subsection \<open>Sample points\<close>

lemma sample_index_le:
  fixes n :: int
  assumes "i < nat n" "2 \<le> n"
  shows "real i \<le> of_int (n - 1)"
proof -
  have "int i \<le> n - 1" using assms by linarith
  then have "real_of_int (int i) \<le> real_of_int (n - 1)" by (rule of_int_le_iff [THEN iffD2])
  then show ?thesis by simp
qed

lemma linspace_Inr:
  "0 \<le> num \<Longrightarrow> \<exists>ys. linspace start stop num = Inr ys \<and> length ys = nat num"
  by (simp add: linspace_def Let_def)

lemma linspace_explicit:
  assumes "2 \<le> num"
  shows "linspace start stop num =
           Inr (map (\<lambda>i. start + real i * (stop - start) / of_int (num - 1)) [0 ..< nat num])"
proof -
  let ?n = "nat num"
  let ?y = "map (\<lambda>i. (if 0 < num - 1 then real i * ((stop - start) / of_int (num - 1))
                          else real i * (stop - start)) + start) [0 ..< ?n]"
  let ?r = "map (\<lambda>i. start + real i * (stop - start) / of_int (num - 1)) [0 ..< ?n]"
  have n: "2 \<le> ?n" using assms by simp
  have last: "start + real (?n - 1) * (stop - start) / of_int (num - 1) = stop"
  proof -
    have "real (?n - 1) = of_int (num - 1)" using assms by (simp add: of_nat_diff)
    moreover have "(of_int (num - 1) :: real) \<noteq> 0" using assms by simp
    ultimately show ?thesis by simp
  qed
  have "?y[?n - 1 := stop] = ?r"
  proof (rule nth_equalityI)
    show "length (?y[?n - 1 := stop]) = length ?r" by simp
  next
    fix i assume "i < length (?y[?n - 1 := stop])"
    then have i: "i < ?n" by simp
    show "?y[?n - 1 := stop] ! i = ?r ! i"
    proof (cases "i = ?n - 1")
      case True
      then show ?thesis using i last by simp
    next
      case False
      then show ?thesis using i assms by (simp add: algebra_simps)
    qed
  qed
  then show ?thesis using assms by (simp add: linspace_def Let_def)
qed

lemma time_array_explicit:
  assumes "2 \<le> n"
  shows "linspace 0 tot n = Inr (map (\<lambda>i. real i * tot / of_int (n - 1)) [0 ..< nat n])"
  using linspace_explicit [OF assms, of 0 tot] by simp

lemma time_array_nth:
  assumes "2 \<le> n" and "linspace 0 tot n = Inr ta" and "i < nat n"
  shows "ta ! i = real i * tot / of_int (n - 1)"
  using time_array_explicit [OF assms(1), of tot] assms(2,3) by auto

lemma linspace_last:
  assumes "2 \<le> n" and "linspace 0 tot n = Inr ta"
  shows "last ta = tot"
proof -
  have ta: "ta = map (\<lambda>i. real i * tot / of_int (n - 1)) [0 ..< nat n]"
    using time_array_explicit [OF assms(1), of tot] assms(2) by simp
  have n: "2 \<le> nat n" using assms(1) by simp
  then have "ta \<noteq> []" by (simp add: ta)
  then have "last ta = ta ! (nat n - 1)" by (simp add: last_conv_nth ta)
  also have "\<dots> = real (nat n - 1) * tot / of_int (n - 1)" using n by (simp add: ta)
  also have "real (nat n - 1) = of_int (n - 1)" using assms(1) by (simp add: of_nat_diff)
  finally show ?thesis using assms(1) by simp
qed

lemma linspace_nonneg:
  assumes "linspace 0 tot n = Inr ta" and "0 \<le> tot" and "t \<in> set ta"
  shows "0 \<le> t"
proof -
  let ?y = "map (\<lambda>i. (if 0 < n - 1 then real i * ((tot - 0) / of_int (n - 1))
                          else real i * (tot - 0)) + 0) [0 ..< nat n]"
  have y: "0 \<le> v" if "v \<in> set ?y" for v
    using that assms(2) by auto
  have "ta = (if 1 < n then ?y[nat n - 1 := tot] else ?y)"
    using assms(1) by (simp add: linspace_def Let_def split: if_splits)
  then have "t \<in> insert tot (set ?y)"
    using assms(3) set_update_subset_insert [of ?y "nat n - 1" tot]
    by (auto split: if_splits)
  then show ?thesis using y assms(2) by blast
qed

lemma linspace_le:
  assumes "linspace 0 tot n = Inr ta" and "0 \<le> tot" and "t \<in> set ta"
  shows "t \<le> tot"
proof (cases "2 \<le> n")
  case True
  then have ta: "ta = map (\<lambda>i. real i * tot / of_int (n - 1)) [0 ..< nat n]"
    using time_array_explicit [OF True, of tot] assms(1) by simp
  then obtain i where i: "i < nat n" and t: "t = real i * tot / of_int (n - 1)"
    using assms(3) by auto
  have "real i \<le> of_int (n - 1)" using i True by (rule sample_index_le)
  then have le: "real i * tot \<le> of_int (n - 1) * tot"
    using assms(2) by (rule mult_right_mono)
  have pos: "(0::real) < of_int (n - 1)" using True by simp
  then have "(0::real) \<le> of_int (n - 1)" by simp
  with le have "real i * tot / of_int (n - 1) \<le> of_int (n - 1) * tot / of_int (n - 1)"
    by (rule divide_right_mono)
  also have "\<dots> = tot" using pos by simp
  finally show ?thesis unfolding t .
next
  case False
  moreover have "0 \<le> n"
  proof (rule ccontr)
    assume "\<not> 0 \<le> n"
    then have "linspace 0 tot n = Inl ValueError" by (simp add: linspace_def)
    then show False using assms(1) by simp
  qed
  ultimately consider "n = 0" | "n = 1" by linarith
  then have "ta = [] \<or> ta = [0]"
  proof cases
    case 1
    have "linspace 0 tot 0 = Inr []" by (simp add: linspace_def Let_def)
    then show ?thesis using assms(1) 1 by simp
  next
    case 2
    have "linspace 0 tot 1 = Inr [0]" by (simp add: linspace_def Let_def)
    then show ?thesis using assms(1) 2 by simp
  qed
  then show ?thesis using assms(2,3) by auto
qed

subsection \<open>Doubles and amounts\<close>


lemma half_powr_le_one:
  fixes h :: real
  assumes "0 < h" "0 \<le> t"
  shows "(1 / 2 :: real) powr (t / h) \<le> 1"
  using assms by (intro powr_le1) simp_all

lemma decay_amount_bounds:
  fixes a h t :: real
  assumes "0 \<le> a" "0 < h" "0 \<le> t"
  shows "0 \<le> a * (1 / 2) powr (t / h)" and "a * (1 / 2) powr (t / h) \<le> a"
    and "0 < a \<Longrightarrow> 0 < a * (1 / 2) powr (t / h)"
proof -
  have p: "0 < (1 / 2 :: real) powr (t / h)" by simp
  show "0 \<le> a * (1 / 2) powr (t / h)" using assms(1) by simp
  show "a * (1 / 2) powr (t / h) \<le> a"
    using mult_left_mono [OF half_powr_le_one [OF assms(2,3)] assms(1)] by simp
  show "0 < a \<Longrightarrow> 0 < a * (1 / 2) powr (t / h)" using p by simp
qed

lemma max_double_ge_one: "1 \<le> max_double"
proof -
  have "(1::real) \<le> 2 - 1 / 2 ^ 52" by simp
  moreover have "(1::real) \<le> 2 ^ 1023" by (rule one_le_power) simp
  ultimately have "1 * 1 \<le> (2 - 1 / 2 ^ 52) * (2 ^ 1023 :: real)"
    by (rule mult_mono) simp_all
  then show ?thesis by (simp add: max_double_def)
qed

lemma max_double_large: "1024 \<le> max_double"
proof -
  have "(1::real) \<le> 2 - 1 / 2 ^ 52" by simp
  moreover have "(2::real) ^ 10 \<le> 2 ^ 1023" by (rule power_increasing) simp_all
  then have "(1024::real) \<le> 2 ^ 1023" by simp
  ultimately have "1 * 1024 \<le> (2 - 1 / 2 ^ 52) * (2 ^ 1023 :: real)"
    by (rule mult_mono) simp_all
  then show ?thesis by (simp add: max_double_def)
qed

lemma underflow_limit_less_one: "underflow_limit < 1"
proof -
  have "(1::real) < 2 ^ 1075" by (rule one_less_power) simp_all
  then show ?thesis by (simp add: underflow_limit_def)
qed

lemma underflow_limit_below:
  fixes x :: real
  assumes "1 / 2 ^ 1074 \<le> x"
  shows "underflow_limit < x"
proof -
  have "(2::real) ^ 1074 < 2 ^ 1075" by (rule power_strict_increasing) simp_all
  then have "1 / (2::real) ^ 1075 < 1 / 2 ^ 1074" by (simp add: frac_less2)
  then show ?thesis using assms by (simp add: underflow_limit_def)
qed

lemma underflow_limit_below_small:
  fixes x :: real
  assumes "1 / 1024 \<le> x"
  shows "underflow_limit < x"
proof -
  have "(2::real) ^ 10 \<le> 2 ^ 1074" by (rule power_increasing) simp_all
  then have "1 / (2::real) ^ 1074 \<le> 1 / 2 ^ 10" by (simp add: frac_le)
  then have "1 / (2::real) ^ 1074 \<le> x" using assms by simp
  then show ?thesis by (rule underflow_limit_below)
qed

lemma half_power_underflows:
  fixes x :: real
  assumes "1075 \<le> x"
  shows "(1 / 2) powr x \<le> underflow_limit"
proof -
  have "(1 / 2 :: real) powr x \<le> (1 / 2) powr 1075"
    using assms by (intro powr_mono') simp_all
  also have "(1 / 2 :: real) powr 1075 = (1 / 2) ^ 1075"
    using powr_realpow [of "1 / 2 :: real" 1075] by simp
  also have "\<dots> = 1 / 2 ^ 1075" by (simp add: power_one_over)
  finally show ?thesis by (simp add: underflow_limit_def)
qed

lemma to_double_in_range:
  assumes "underflow_limit < \<bar>x\<bar>" and "\<bar>x\<bar> \<le> max_double"
  shows "to_double x = Some x"
  using assms by (simp add: to_double_def)

lemma to_double_small:
  assumes "\<bar>x\<bar> \<le> underflow_limit"
  shows "to_double x = Some 0"
proof -
  have "\<bar>x\<bar> \<le> max_double"
    using assms underflow_limit_less_one max_double_ge_one by linarith
  then show ?thesis using assms by (simp add: to_double_def)
qed

lemma to_double_zero [simp]: "to_double 0 = Some 0"
  by (rule to_double_small) (simp add: underflow_limit_def)

lemma to_double_one [simp]: "to_double 1 = Some 1"
  by (rule to_double_in_range) (use underflow_limit_less_one max_double_ge_one in simp_all)



lemma half_power_stored:
  fixes h t :: real
  assumes "0 < h" and "0 \<le> t"
  shows "to_double ((1 / 2) powr (t / h))
           = Some (if underflow_limit < (1 / 2) powr (t / h) then (1 / 2) powr (t / h) else 0)"
proof -
  let ?p = "(1 / 2 :: real) powr (t / h)"
  have p: "0 < ?p" "?p \<le> 1" using half_powr_le_one [OF assms] by simp_all
  show ?thesis
  proof (cases "underflow_limit < ?p")
    case True
    then have "to_double ?p = Some ?p"
      using p max_double_ge_one by (intro to_double_in_range) simp_all
    then show ?thesis using True by simp
  next
    case False
    then have "to_double ?p = Some 0"
      using p by (intro to_double_small) simp_all
    then show ?thesis using False by simp
  qed
qed

lemma amount_stored:
  fixes a p :: real
  assumes "0 \<le> a" and "a \<le> max_double" and "0 \<le> p" and "p \<le> 1"
  shows "to_double (a * p) = Some (if underflow_limit < a * p then a * p else 0)"
proof -
  have ap: "0 \<le> a * p" using assms(1,3) by simp
  have "a * p \<le> a * 1" using assms(1,4) by (rule mult_left_mono [rotated])
  then have le: "a * p \<le> max_double" using assms(2) by simp
  show ?thesis
  proof (cases "underflow_limit < a * p")
    case True
    then have "to_double (a * p) = Some (a * p)"
      using ap le by (intro to_double_in_range) simp_all
    then show ?thesis using True by simp
  next
    case False
    then have "to_double (a * p) = Some 0"
      using ap by (intro to_double_small) simp_all
    then show ?thesis using False by simp
  qed
qed

lemma remaining_at_stored:
  fixes a h t :: real
  assumes "0 \<le> a" and "a \<le> max_double" and "0 < h" and "0 \<le> t"
  shows "remaining_at a h t =
           Some (if underflow_limit < (1 / 2) powr (t / h)
                    \<and> underflow_limit < a * (1 / 2) powr (t / h)
                 then a * (1 / 2) powr (t / h) else 0)"
proof -
  let ?p = "(1 / 2 :: real) powr (t / h)"
  have p: "0 \<le> ?p" "?p \<le> 1" using half_powr_le_one [OF assms(3,4)] by simp_all
  have h: "h \<noteq> 0" using assms(3) by simp
  show ?thesis
  proof (cases "underflow_limit < ?p")
    case True
    then have "remaining_at a h t = to_double (a * ?p)"
      using h half_power_stored [OF assms(3,4)] by (simp add: remaining_at_def)
    then show ?thesis using True amount_stored [OF assms(1,2) p] by simp
  next
    case False
    then have "remaining_at a h t = to_double (a * 0)"
      using h half_power_stored [OF assms(3,4)] by (simp add: remaining_at_def)
    then show ?thesis using False by simp
  qed
qed

lemma current_remaining_amount_stored:
  fixes a h t :: real
  assumes "0 \<le> a" and "a \<le> max_double" and "0 < h" and "0 \<le> t"
  shows "current_remaining_amount a h t =
           Inr (Some (if underflow_limit < (1 / 2) powr (t / h)
                         \<and> underflow_limit < a * (1 / 2) powr (t / h)
                      then a * (1 / 2) powr (t / h) else 0))"
proof -
  let ?p = "(1 / 2 :: real) powr (t / h)"
  have p: "0 \<le> ?p" "?p \<le> 1" using half_powr_le_one [OF assms(3,4)] by simp_all
  have h: "h \<noteq> 0" using assms(3) by simp
  show ?thesis
  proof (cases "underflow_limit < ?p")
    case True
    then have "current_remaining_amount a h t = Inr (to_double (a * ?p))"
      using h half_power_stored [OF assms(3,4)] by (simp add: current_remaining_amount_def)
    then show ?thesis using True amount_stored [OF assms(1,2) p] by simp
  next
    case False
    then have "current_remaining_amount a h t = Inr (to_double (a * 0))"
      using h half_power_stored [OF assms(3,4)] by (simp add: current_remaining_amount_def)
    then show ?thesis using False by simp
  qed
qed



lemma stored_amount_bounds:
  fixes a h t :: real
  assumes "0 \<le> a" and "0 < h" and "0 \<le> t"
  defines "r \<equiv> (if underflow_limit < (1 / 2) powr (t / h)
                     \<and> underflow_limit < a * (1 / 2) powr (t / h)
                  then a * (1 / 2) powr (t / h) else 0)"
  shows "0 \<le> r" and "r \<le> a"
    and "r = a * (1 / 2) powr (t / h)
         \<or> (r = 0 \<and> ((1 / 2) powr (t / h) \<le> underflow_limit
                       \<or> a * (1 / 2) powr (t / h) \<le> underflow_limit))"
proof -
  have b: "0 \<le> a * (1 / 2) powr (t / h)" "a * (1 / 2) powr (t / h) \<le> a"
    by (rule decay_amount_bounds [OF assms(1,2,3)])+
  show "0 \<le> r" using b(1) by (simp add: r_def)
  show "r \<le> a" using b(2) assms(1) by (simp add: r_def)
  show "r = a * (1 / 2) powr (t / h)
         \<or> (r = 0 \<and> ((1 / 2) powr (t / h) \<le> underflow_limit
                       \<or> a * (1 / 2) powr (t / h) \<le> underflow_limit))"
    by (auto simp: r_def)
qed

subsection \<open>The evaluator\<close>

lemma timestamps_within:
  assumes "linspace 0 tot n = Inr ta" and "0 \<le> tot"
    and "valid_datetime d" and "valid_datetime (d + timedelta_hours tot)"
  shows "sequence (map (plus_hours d) ta) = Inr (map (\<lambda>hr. d + timedelta_hours hr) ta)"
proof (rule sequence_map_Inr, rule ballI)
  fix hr assume hr: "hr \<in> set ta"
  have "0 \<le> hr" by (rule linspace_nonneg [OF assms(1,2) hr])
  moreover have "hr \<le> tot" by (rule linspace_le [OF assms(1,2) hr])
  ultimately show "plus_hours d hr = Inr (d + timedelta_hours hr)"
    using assms(3,4) by (intro plus_hours_within)
qed

lemma decay_returns:
  assumes "linspace 0 (time_diff + future_time) time_points = Inr ta"
    and "0 \<le> time_diff + future_time"
    and "valid_datetime d"
    and "valid_datetime (d + timedelta_hours (time_diff + future_time))"
  shows "calculate_nicotine_decay d a half_life time_diff future_time time_points =
           Inr (ta, map (remaining_at a half_life) ta, map (\<lambda>hr. d + timedelta_hours hr) ta)"
  using assms(1) timestamps_within [OF assms]
  by (simp add: calculate_nicotine_decay_def Let_def)

lemma decay_returned:
  assumes "calculate_nicotine_decay d a half_life time_diff future_time time_points
             = Inr (ta, ra, ts)"
  shows "linspace 0 (time_diff + future_time) time_points = Inr ta"
    and "ra = map (remaining_at a half_life) ta"
    and "length ts = length ta"
    and "\<And>i. i < length ta \<Longrightarrow> plus_hours d (ta ! i) = Inr (ts ! i)"
proof -
  from assms obtain ta' where lin: "linspace 0 (time_diff + future_time) time_points = Inr ta'"
    by (auto simp: calculate_nicotine_decay_def Let_def split: sum.splits)
  with assms have ta: "ta' = ta" and ra: "ra = map (remaining_at a half_life) ta"
    and seq: "sequence (map (plus_hours d) ta) = Inr ts"
    by (auto simp: calculate_nicotine_decay_def Let_def split: sum.splits)
  show "linspace 0 (time_diff + future_time) time_points = Inr ta" using lin ta by simp
  show "ra = map (remaining_at a half_life) ta" by (rule ra)
  show "length ts = length ta" using sequence_Inr_length [OF seq] by simp
  show "plus_hours d (ta ! i) = Inr (ts ! i)" if "i < length ta" for i
    using sequence_Inr_nth [OF seq, of i] that by simp
qed

lemma decay_overflows:
  assumes "2 \<le> time_points"
    and "plus_hours d (time_diff + future_time) = Inl OverflowError"
  shows "calculate_nicotine_decay d a half_life time_diff future_time time_points
           = Inl OverflowError"
proof -
  obtain ta where lin: "linspace 0 (time_diff + future_time) time_points = Inr ta"
    and len: "length ta = nat time_points"
    using linspace_Inr [of time_points 0 "time_diff + future_time"] assms(1) by auto
  have "ta \<noteq> []" using len assms(1) by auto
  moreover have "last ta = time_diff + future_time" by (rule linspace_last [OF assms(1) lin])
  ultimately have "time_diff + future_time \<in> set ta" using last_in_set by metis
  then have "sequence (map (plus_hours d) ta) = Inl OverflowError"
    using assms(2) plus_hours_error by (rule sequence_map_Inl)
  then show ?thesis using lin by (simp add: calculate_nicotine_decay_def Let_def)
qed

subsection \<open>The two milestone loops\<close>

lemma classify_cases:
  "classify dose_datetime current_datetime future_time m =
     (if current_datetime < milestone_time dose_datetime m
         \<and> milestone_time dose_datetime m \<le> current_datetime + timedelta_hours future_time
      then Some (Upcoming (label m)
                   (of_int (milestone_time dose_datetime m - current_datetime) / of_int us_per_hour)
                   (milestone_time dose_datetime m))
      else if milestone_time dose_datetime m \<le> current_datetime
      then Some (Achieved (label m) (milestone_time dose_datetime m))
      else None)"
  by (simp add: classify_def Let_def total_seconds_def us_per_hour_def)


lemma milestone_hours:
  assumes "m \<in> set milestones"
  shows "0 \<le> time m \<and> time m \<le> 720"
  using assms by (auto simp: milestones_def)

lemma milestone_time_valid:
  assumes "m \<in> set milestones" and "valid_datetime dose_datetime"
    and "valid_datetime (dose_datetime + timedelta_hours 720)"
  shows "plus_hours dose_datetime (time m) = Inr (milestone_time dose_datetime m)"
    and "dose_datetime \<le> milestone_time dose_datetime m"
proof -
  have h: "0 \<le> time m" "time m \<le> 720" using milestone_hours [OF assms(1)] by simp_all
  show "plus_hours dose_datetime (time m) = Inr (milestone_time dose_datetime m)"
    unfolding milestone_time_def by (rule plus_hours_within [OF assms(2) h assms(3)])
  have "0 \<le> timedelta_hours (time m)" using timedelta_hours_mono [OF h(1)] by simp
  then show "dose_datetime \<le> milestone_time dose_datetime m"
    by (simp add: milestone_time_def)
qed

lemma first_milestone:
  "milestones ! 0 \<in> set milestones"
  "label (milestones ! 0) = ''Heart Rate Normalizes''"
  "milestone_time D (milestones ! 0) = D + 1188000000"
  by (simp_all add: milestones_def milestone_time_def timedelta_hours_first)

lemma second_milestone:
  "milestones ! 1 \<in> set milestones"
  "label (milestones ! 1) = ''Oxygen Levels Normalize''"
  "milestone_time D (milestones ! 1) = D + 8 * us_per_hour"
  using timedelta_hours_of_int [of 8]
  by (simp_all add: milestones_def milestone_time_def)

lemma plot_loop_returns:
  assumes "valid_datetime dose_datetime"
    and "valid_datetime (dose_datetime + timedelta_hours 720)"
    and "time_array \<noteq> []"
    and "plus_hours dose_datetime (last time_array) = Inr span_end"
  shows "plot_loop dose_datetime time_array =
           Inr (List.map_filter
                  (\<lambda>m. if milestone_time dose_datetime m \<le> span_end
                       then Some (milestone_time dose_datetime m, label m) else None)
                  milestones)"
proof -
  have le: "last_elem time_array = Inr (last time_array)"
    using assms(3) by (simp add: last_elem_def split: list.splits)
  have "\<forall>m \<in> set milestones.
          plot_step dose_datetime time_array m
            = Inr (if milestone_time dose_datetime m \<le> span_end
                   then Some (milestone_time dose_datetime m, label m) else None)"
  proof
    fix m assume m: "m \<in> set milestones"
    show "plot_step dose_datetime time_array m
            = Inr (if milestone_time dose_datetime m \<le> span_end
                   then Some (milestone_time dose_datetime m, label m) else None)"
      using milestone_time_valid [OF m assms(1,2)] le assms(4)
      by (simp add: plot_step_def)
  qed
  then have "sequence (map (plot_step dose_datetime time_array) milestones)
               = Inr (map (\<lambda>m. if milestone_time dose_datetime m \<le> span_end
                                then Some (milestone_time dose_datetime m, label m) else None)
                          milestones)"
    by (rule sequence_map_Inr)
  then show ?thesis by (simp add: plot_loop_def map_filter_id_map)
qed

lemma text_loop_returns:
  assumes "valid_datetime dose_datetime"
    and "valid_datetime (dose_datetime + timedelta_hours 720)"
    and "plus_hours current_datetime future_time = Inr horizon"
  shows "text_loop dose_datetime current_datetime future_time =
           Inr (milestone_lines dose_datetime current_datetime future_time)"
proof -
  have hz: "horizon = current_datetime + timedelta_hours future_time"
    using assms(3) by (simp add: plus_hours_Inr_iff)
  have "\<forall>m \<in> set milestones.
          text_step dose_datetime current_datetime future_time m
            = Inr (classify dose_datetime current_datetime future_time m)"
  proof
    fix m assume m: "m \<in> set milestones"
    show "text_step dose_datetime current_datetime future_time m
            = Inr (classify dose_datetime current_datetime future_time m)"
      using milestone_time_valid(1) [OF m assms(1,2)] assms(3) hz
      by (simp add: text_step_def classify_def Let_def)
  qed
  then have "sequence (map (text_step dose_datetime current_datetime future_time) milestones)
               = Inr (map (classify dose_datetime current_datetime future_time) milestones)"
    by (rule sequence_map_Inr)
  then show ?thesis by (simp add: text_loop_def milestone_lines_def map_filter_id_map)
qed

lemma upcoming_listed_iff:
  assumes "m \<in> set milestones"
  shows "(\<exists>h. Upcoming (label m) h (milestone_time dose_datetime m)
               \<in> set (milestone_lines dose_datetime current_datetime future_time))
         \<longleftrightarrow> current_datetime < milestone_time dose_datetime m
             \<and> milestone_time dose_datetime m \<le> current_datetime + timedelta_hours future_time"
proof
  assume "\<exists>h. Upcoming (label m) h (milestone_time dose_datetime m)
               \<in> set (milestone_lines dose_datetime current_datetime future_time)"
  then obtain h m' where
    "classify dose_datetime current_datetime future_time m'
       = Some (Upcoming (label m) h (milestone_time dose_datetime m))"
    by (auto simp: milestone_lines_def List.map_filter_def)
  then show "current_datetime < milestone_time dose_datetime m
             \<and> milestone_time dose_datetime m \<le> current_datetime + timedelta_hours future_time"
    by (auto simp: classify_cases split: if_splits)
next
  assume w: "current_datetime < milestone_time dose_datetime m
             \<and> milestone_time dose_datetime m \<le> current_datetime + timedelta_hours future_time"
  then have "classify dose_datetime current_datetime future_time m
       = Some (Upcoming (label m)
                 (of_int (milestone_time dose_datetime m - current_datetime) / of_int us_per_hour)
                 (milestone_time dose_datetime m))"
    by (simp add: classify_cases)
  then have "Upcoming (label m)
                 (of_int (milestone_time dose_datetime m - current_datetime) / of_int us_per_hour)
                 (milestone_time dose_datetime m)
              \<in> set (milestone_lines dose_datetime current_datetime future_time)"
    using assms by (force simp: milestone_lines_def List.map_filter_def)
  then show "\<exists>h. Upcoming (label m) h (milestone_time dose_datetime m)
               \<in> set (milestone_lines dose_datetime current_datetime future_time)"
    by blast
qed

lemma marker_placed_iff:
  assumes "m \<in> set milestones"
  shows "(milestone_time dose_datetime m, label m)
           \<in> set (List.map_filter
                     (\<lambda>m. if milestone_time dose_datetime m \<le> span_end
                          then Some (milestone_time dose_datetime m, label m) else None)
                     milestones)
         \<longleftrightarrow> milestone_time dose_datetime m \<le> span_end"
  using assms by (auto simp: List.map_filter_def)

subsection \<open>The guards and a complete run\<close>

lemma run_sentinel:
  "run today now dose_amount today (time_hm 0 0) future_time time_points =
     Inl (Stopped ''Please enter the date and time of your last nicotine use.'')"
  by (simp add: run_def)

lemma run_future:
  assumes "\<not> (dose_date = today \<and> dose_time = time_hm 0 0)"
    and "now < datetime_combine dose_date dose_time"
  shows "run today now dose_amount dose_date dose_time future_time time_points =
           Inl (Stopped ''Last nicotine use time cannot be in the future.'')"
  using assms by (simp add: run_def Let_def total_seconds_negative)

lemma run_not_sentinel:
  assumes "\<not> (dose_date = today \<and> dose_time = time_hm 0 0)"
  shows "run today now dose_amount dose_date dose_time future_time time_points
     \<noteq> Inl (Stopped ''Please enter the date and time of your last nicotine use.'')"
proof (cases "now < datetime_combine dose_date dose_time")
  case True
  show ?thesis
    by (simp add: run_future [OF assms True])
next
  case False
  then have nn: "\<not> total_seconds (now - datetime_combine dose_date dose_time) < 0"
    by (simp add: total_seconds_negative)
  show ?thesis
    unfolding run_def Let_def using assms nn
    by (simp split: sum.splits prod.splits)
qed

lemma run_raises:
  assumes "\<not> (dose_date = today \<and> dose_time = time_hm 0 0)"
    and "datetime_combine dose_date dose_time \<le> now"
    and "calculate_nicotine_decay (datetime_combine dose_date dose_time) dose_amount 2
           (total_seconds (now - datetime_combine dose_date dose_time) / 3600)
           future_time time_points = Inl e"
  shows "run today now dose_amount dose_date dose_time future_time time_points
           = Inl (Raised e)"
proof -
  have nn: "\<not> total_seconds (now - datetime_combine dose_date dose_time) < 0"
    using assms(2) by (simp add: total_seconds_negative)
  show ?thesis
    unfolding run_def Let_def using assms(1,3) nn by simp
qed

lemma run_proceeds:
  fixes dose_amount future_time :: real
  assumes "\<not> (dose_date = today \<and> dose_time = time_hm 0 0)"
    and "datetime_combine dose_date dose_time \<le> now"
    and "1 \<le> time_points"
    and "0 \<le> future_time"
  defines "dose_datetime \<equiv> datetime_combine dose_date dose_time"
  defines "time_diff \<equiv> total_seconds (now - dose_datetime) / 3600"
  assumes vd: "valid_datetime dose_datetime"
    and ve: "valid_datetime (dose_datetime + timedelta_hours (time_diff + future_time))"
    and vm: "valid_datetime (dose_datetime + timedelta_hours 720)"
    and vh: "valid_datetime (now + timedelta_hours future_time)"
  shows "\<exists>ta current.
           linspace 0 (time_diff + future_time) time_points = Inr ta
           \<and> length ta = nat time_points
           \<and> run today now dose_amount dose_date dose_time future_time time_points =
               Inr \<lparr>curve_hours = ta,
                    curve_amounts = map (remaining_at dose_amount 2) ta,
                    curve_timestamps = map (\<lambda>hr. dose_datetime + timedelta_hours hr) ta,
                    level_now = current,
                    markers = List.map_filter
                      (\<lambda>m. if milestone_time dose_datetime m
                                \<le> dose_datetime + timedelta_hours (last ta)
                           then Some (milestone_time dose_datetime m, label m) else None)
                      milestones,
                    lines = milestone_lines dose_datetime now future_time\<rparr>"
proof -
  have n0: "0 \<le> time_points" using assms(3) by simp
  have td0: "0 \<le> time_diff"
    unfolding time_diff_def dose_datetime_def by (rule time_diff_nonneg [OF assms(2)])
  have tot: "0 \<le> time_diff + future_time" using td0 assms(4) by simp
  obtain ta where lin: "linspace 0 (time_diff + future_time) time_points = Inr ta"
    and len: "length ta = nat time_points"
    using linspace_Inr [OF n0] by blast
  have ne: "ta \<noteq> []" using len assms(3) by auto
  have calc: "calculate_nicotine_decay dose_datetime dose_amount 2 time_diff future_time
                time_points
              = Inr (ta, map (remaining_at dose_amount 2) ta,
                     map (\<lambda>hr. dose_datetime + timedelta_hours hr) ta)"
    by (rule decay_returns [OF lin tot vd ve])
  have "to_double ((1 / 2) powr (time_diff / 2))
          = Some (if underflow_limit < (1 / 2) powr (time_diff / 2)
                  then (1 / 2) powr (time_diff / 2) else 0)"
    using td0 by (intro half_power_stored) simp_all
  then obtain current where
    cur: "current_remaining_amount dose_amount 2 time_diff = Inr current"
    by (simp add: current_remaining_amount_def)
  have "last ta \<in> set ta" using ne by simp
  then have "0 \<le> last ta" "last ta \<le> time_diff + future_time"
    using linspace_nonneg [OF lin tot] linspace_le [OF lin tot] by simp_all
  then have span: "plus_hours dose_datetime (last ta)
                     = Inr (dose_datetime + timedelta_hours (last ta))"
    using vd ve by (intro plus_hours_within)
  have plot: "plot_loop dose_datetime ta =
           Inr (List.map_filter
                  (\<lambda>m. if milestone_time dose_datetime m
                            \<le> dose_datetime + timedelta_hours (last ta)
                       then Some (milestone_time dose_datetime m, label m) else None)
                  milestones)"
    by (rule plot_loop_returns [OF vd vm ne span])
  have "dose_datetime \<le> now" using assms(2) by (simp add: dose_datetime_def)
  then have "valid_datetime now"
    using vd vh timedelta_hours_mono [OF assms(4)]
    by (simp add: valid_datetime_def)
  then have "plus_hours now future_time = Inr (now + timedelta_hours future_time)"
    using assms(4) vh by (intro plus_hours_within [of now future_time future_time]) simp_all
  then have shown: "text_loop dose_datetime now future_time
                     = Inr (milestone_lines dose_datetime now future_time)"
    by (rule text_loop_returns [OF vd vm])
  have nn: "\<not> time_diff < 0" using td0 by simp
  have "run today now dose_amount dose_date dose_time future_time time_points =
               Inr \<lparr>curve_hours = ta,
                    curve_amounts = map (remaining_at dose_amount 2) ta,
                    curve_timestamps = map (\<lambda>hr. dose_datetime + timedelta_hours hr) ta,
                    level_now = current,
                    markers = List.map_filter
                      (\<lambda>m. if milestone_time dose_datetime m
                                \<le> dose_datetime + timedelta_hours (last ta)
                           then Some (milestone_time dose_datetime m, label m) else None)
                      milestones,
                    lines = milestone_lines dose_datetime now future_time\<rparr>"
    using assms(1) nn calc cur plot shown
    unfolding run_def Let_def dose_datetime_def [symmetric] time_diff_def [symmetric]
    by simp
  with lin len show ?thesis by blast
qed

lemma run_overflows_example:
  "run 738001 (738001 * us_per_day) 20 738000 (time_hm 23 0) 100000000 50
     = Inl (Raised OverflowError)"
proof -
  have d: "datetime_combine 738000 (time_hm 23 0) = 738000 * us_per_day + 23 * us_per_hour"
    by (simp add: datetime_combine_def time_hm_def us_per_day_def us_per_hour_def)
  have td: "total_seconds (738001 * us_per_day - datetime_combine 738000 (time_hm 23 0)) / 3600
              = 1"
    by (simp add: d total_seconds_def us_per_day_def us_per_hour_def)
  have h: "timedelta_hours 100000001 = 100000001 * us_per_hour"
    using timedelta_hours_of_int [of 100000001] by simp
  have "plus_hours (datetime_combine 738000 (time_hm 23 0)) (1 + 100000000)
          = Inl OverflowError"
    by (simp add: plus_hours_def Let_def d h timedelta_in_range_def valid_datetime_def
        us_per_day_def us_per_hour_def)
  then have "calculate_nicotine_decay (datetime_combine 738000 (time_hm 23 0)) 20 2 1
               100000000 50 = Inl OverflowError"
    by (intro decay_overflows) simp_all
  then have "calculate_nicotine_decay (datetime_combine 738000 (time_hm 23 0)) 20 2
           (total_seconds (738001 * us_per_day - datetime_combine 738000 (time_hm 23 0)) / 3600)
           100000000 50 = Inl OverflowError"
    by (simp only: td)
  moreover have "\<not> ((738000::int) = 738001 \<and> time_hm 23 0 = time_hm 0 0)" by simp
  moreover have "datetime_combine 738000 (time_hm 23 0) \<le> 738001 * us_per_day"
    by (simp add: d us_per_day_def us_per_hour_def)
  ultimately show ?thesis by (intro run_raises)
qed

lemma run_windows:
  fixes dose_amount future_time :: real
  assumes "\<not> (dose_date = today \<and> dose_time = time_hm 0 0)"
    and "datetime_combine dose_date dose_time \<le> now"
    and "2 \<le> time_points"
    and "0 \<le> future_time"
  defines "dose_datetime \<equiv> datetime_combine dose_date dose_time"
  defines "total_plotted_hours \<equiv> total_seconds (now - dose_datetime) / 3600 + future_time"
  assumes vd: "valid_datetime dose_datetime"
    and ve: "valid_datetime (dose_datetime + timedelta_hours total_plotted_hours)"
    and vm: "valid_datetime (dose_datetime + timedelta_hours 720)"
    and vh: "valid_datetime (now + timedelta_hours future_time)"
  shows "\<exists>out. run today now dose_amount dose_date dose_time future_time time_points = Inr out
            \<and> last (curve_hours out) = total_plotted_hours
            \<and> (\<forall>m \<in> set milestones.
                  (milestone_time dose_datetime m, label m) \<in> set (markers out)
                  \<longleftrightarrow> dose_datetime \<le> milestone_time dose_datetime m
                      \<and> milestone_time dose_datetime m
                          \<le> dose_datetime + timedelta_hours total_plotted_hours)
            \<and> (\<forall>m \<in> set milestones.
                  (\<exists>h. Upcoming (label m) h (milestone_time dose_datetime m) \<in> set (lines out))
                  \<longleftrightarrow> now < milestone_time dose_datetime m
                      \<and> milestone_time dose_datetime m \<le> now + timedelta_hours future_time)"
proof -
  have n1: "1 \<le> time_points" using assms(3) by simp
  obtain ta current where
    lin: "linspace 0 total_plotted_hours time_points = Inr ta"
    and r: "run today now dose_amount dose_date dose_time future_time time_points =
               Inr \<lparr>curve_hours = ta,
                    curve_amounts = map (remaining_at dose_amount 2) ta,
                    curve_timestamps = map (\<lambda>hr. dose_datetime + timedelta_hours hr) ta,
                    level_now = current,
                    markers = List.map_filter
                      (\<lambda>m. if milestone_time dose_datetime m
                                \<le> dose_datetime + timedelta_hours (last ta)
                           then Some (milestone_time dose_datetime m, label m) else None)
                      milestones,
                    lines = milestone_lines dose_datetime now future_time\<rparr>"
    using run_proceeds [OF assms(1,2) n1 assms(4), of dose_amount]
      vd ve vm vh
    unfolding dose_datetime_def total_plotted_hours_def by blast
  have lst: "last ta = total_plotted_hours"
    by (rule linspace_last [OF assms(3) lin])
  have mk: "(milestone_time dose_datetime m, label m)
              \<in> set (List.map_filter
                      (\<lambda>m. if milestone_time dose_datetime m
                                \<le> dose_datetime + timedelta_hours (last ta)
                           then Some (milestone_time dose_datetime m, label m) else None)
                      milestones)
            \<longleftrightarrow> dose_datetime \<le> milestone_time dose_datetime m
                \<and> milestone_time dose_datetime m
                    \<le> dose_datetime + timedelta_hours total_plotted_hours"
    if m: "m \<in> set milestones" for m
    using marker_placed_iff [OF m, of dose_datetime "dose_datetime + timedelta_hours (last ta)"]
      milestone_time_valid(2) [OF m vd vm] lst
    by simp
  show ?thesis
    using r lst mk upcoming_listed_iff [of _ dose_datetime now future_time]
    by simp
qed

lemma run_example:
  defines "D \<equiv> datetime_combine 738000 (time_hm 23 0)"
  shows "\<exists>out. run 738001 (738001 * us_per_day) 20 738000 (time_hm 23 0) 24 50 = Inr out
            \<and> last (curve_hours out) = 25
            \<and> (\<forall>m \<in> set milestones.
                  (milestone_time D m, label m) \<in> set (markers out)
                  \<longleftrightarrow> D \<le> milestone_time D m
                      \<and> milestone_time D m \<le> D + timedelta_hours 25)
            \<and> (\<forall>m \<in> set milestones.
                  (\<exists>h. Upcoming (label m) h (milestone_time D m) \<in> set (lines out))
                  \<longleftrightarrow> 738001 * us_per_day < milestone_time D m
                      \<and> milestone_time D m \<le> 738001 * us_per_day + timedelta_hours 24)"
proof -
  have d: "D = 738000 * us_per_day + 23 * us_per_hour"
    by (simp add: D_def datetime_combine_def time_hm_def us_per_day_def us_per_hour_def)
  have td: "total_seconds (738001 * us_per_day - D) / 3600 + 24 = 25"
    by (simp add: d total_seconds_def us_per_day_def us_per_hour_def)
  have t: "timedelta_hours 25 = 25 * us_per_hour" "timedelta_hours 720 = 720 * us_per_hour"
    "timedelta_hours 24 = 24 * us_per_hour"
    using timedelta_hours_of_int [of 25] timedelta_hours_of_int [of 720]
      timedelta_hours_of_int [of 24] by simp_all
  have ns: "\<not> ((738000::int) = 738001 \<and> time_hm 23 0 = time_hm 0 0)" by simp
  have le: "datetime_combine 738000 (time_hm 23 0) \<le> 738001 * us_per_day"
    using d by (simp add: D_def us_per_day_def us_per_hour_def)
  have n: "(2::int) \<le> 50" and f: "(0::real) \<le> 24" by simp_all
  have vd: "valid_datetime (datetime_combine 738000 (time_hm 23 0))"
    using d by (simp add: D_def valid_datetime_def us_per_day_def us_per_hour_def)
  have ve: "valid_datetime (datetime_combine 738000 (time_hm 23 0)
              + timedelta_hours (total_seconds (738001 * us_per_day
                  - datetime_combine 738000 (time_hm 23 0)) / 3600 + 24))"
    using d td unfolding D_def
    by (simp add: t valid_datetime_def us_per_day_def us_per_hour_def)
  have vm: "valid_datetime (datetime_combine 738000 (time_hm 23 0) + timedelta_hours 720)"
    using d unfolding D_def by (simp add: t valid_datetime_def us_per_day_def us_per_hour_def)
  have vh: "valid_datetime (738001 * us_per_day + timedelta_hours 24)"
    by (simp add: t valid_datetime_def us_per_day_def us_per_hour_def)
  show ?thesis
    using run_windows [OF ns le n f vd ve vm vh, of 20] td unfolding D_def by simp
qed

section \<open>The claims\<close>

text \<open>
  Claim C1, as stated, fails. With 10^9 elapsed hours the timestamps of line 98 leave the
  range of \<open>datetime\<close> and the evaluator raises \<open>OverflowError\<close> instead of returning a
  curve; and 2400 hours after a dose of 20 the script's amount is the double \<open>0.0\<close>, where
  the formula's value is positive.
\<close>

theorem C1_counterexample:
  "calculate_nicotine_decay (738000 * us_per_day) 20 2 1000000000 24 50 = Inl OverflowError
   \<and> current_remaining_amount 20 2 2400 = Inr (Some 0)
   \<and> (0::real) < 20 * (1 / 2) powr (2400 / 2)"
proof (intro conjI)
  have td: "timedelta_hours 1000000024 = 1000000024 * us_per_hour"
    using timedelta_hours_of_int [of 1000000024] by simp
  have "plus_hours (738000 * us_per_day) (1000000000 + 24) = Inl OverflowError"
    by (simp add: plus_hours_def Let_def td timedelta_in_range_def valid_datetime_def
        us_per_day_def us_per_hour_def)
  then show "calculate_nicotine_decay (738000 * us_per_day) 20 2 1000000000 24 50
               = Inl OverflowError"
    by (intro decay_overflows) simp_all
next
  have "(1 / 2 :: real) powr (2400 / 2) \<le> underflow_limit"
    by (rule half_power_underflows) simp
  then have "to_double ((1 / 2) powr (2400 / 2)) = Some 0"
    by (intro to_double_small) simp
  then show "current_remaining_amount 20 2 2400 = Inr (Some 0)"
    by (simp add: current_remaining_amount_def)
next
  show "(0::real) < 20 * (1 / 2) powr (2400 / 2)" by simp
qed

text \<open>
  Claim C1, amended. For a dose between 0 and the largest double, a positive half-life, at
  least two sample points, and a non-negative elapsed time and horizon whose sampled span ends
  at a \<open>datetime\<close> that exists: the evaluator returns the curve whose sample \<open>i\<close> lies at
  \<open>i * (time_diff + future_time) / (time_points - 1)\<close> hours and holds
  \<open>dose_amount * 0.5 ^ (elapsed_hours / half_life)\<close> as a double, that is the value itself
  while it and the power are above the underflow limit and \<open>0.0\<close> below; the scalar under the
  ``now'' marker is the same at \<open>time_diff\<close>; a dose of 20 with half-life 2 leaves exactly 5
  after 4 hours.
\<close>

theorem C1_decay_formula:
  fixes dose_amount half_life time_diff future_time :: real
  assumes "0 \<le> dose_amount" and "dose_amount \<le> max_double" and "0 < half_life"
    and "0 \<le> time_diff" and "0 \<le> future_time" and "2 \<le> time_points"
    and "valid_datetime d"
    and "valid_datetime (d + timedelta_hours (time_diff + future_time))"
  defines "amount t \<equiv>
             (if underflow_limit < (1 / 2) powr (t / half_life)
                 \<and> underflow_limit < dose_amount * (1 / 2) powr (t / half_life)
              then dose_amount * (1 / 2) powr (t / half_life) else 0)"
  shows "(\<exists>ta ra ts.
            calculate_nicotine_decay d dose_amount half_life time_diff future_time time_points
              = Inr (ta, ra, ts)
            \<and> length ta = nat time_points \<and> length ra = nat time_points
            \<and> (\<forall>i < nat time_points.
                  ta ! i = real i * (time_diff + future_time) / of_int (time_points - 1)
                  \<and> ra ! i = Some (amount (ta ! i))))
         \<and> current_remaining_amount dose_amount half_life time_diff
             = Inr (Some (amount time_diff))
         \<and> current_remaining_amount 20 2 4 = Inr (Some 5)"
proof -
  have n0: "0 \<le> time_points" using assms(6) by simp
  have tot: "0 \<le> time_diff + future_time" using assms(4,5) by simp
  obtain ta where lin: "linspace 0 (time_diff + future_time) time_points = Inr ta"
    and len: "length ta = nat time_points"
    using linspace_Inr [OF n0] by blast
  have calc: "calculate_nicotine_decay d dose_amount half_life time_diff future_time time_points
           = Inr (ta, map (remaining_at dose_amount half_life) ta,
                  map (\<lambda>hr. d + timedelta_hours hr) ta)"
    by (rule decay_returns [OF lin tot assms(7,8)])
  have pt: "ta ! i = real i * (time_diff + future_time) / of_int (time_points - 1)
            \<and> map (remaining_at dose_amount half_life) ta ! i = Some (amount (ta ! i))"
    if i: "i < nat time_points" for i
  proof -
    have "ta ! i \<in> set ta" using i len by simp
    then have "0 \<le> ta ! i" by (rule linspace_nonneg [OF lin tot])
    then have "remaining_at dose_amount half_life (ta ! i) = Some (amount (ta ! i))"
      unfolding amount_def by (rule remaining_at_stored [OF assms(1,2,3)])
    then show ?thesis using time_array_nth [OF assms(6) lin i] i len by simp
  qed
  have scalar: "current_remaining_amount dose_amount half_life time_diff
             = Inr (Some (amount time_diff))"
    unfolding amount_def by (rule current_remaining_amount_stored [OF assms(1,2,3,4)])
  have "(20::real) \<le> max_double" using max_double_large by linarith
  then have "current_remaining_amount 20 2 4
        = Inr (Some (if underflow_limit < (1 / 2) powr (4 / 2)
                         \<and> underflow_limit < 20 * (1 / 2) powr (4 / 2)
                      then 20 * (1 / 2) powr (4 / 2) else 0))"
    by (intro current_remaining_amount_stored) simp_all
  moreover have "(1 / 2 :: real) powr (4 / 2) = 1 / 4" by (simp add: power2_eq_square)
  moreover have "underflow_limit < 1 / 4" "underflow_limit < 5"
    by (rule underflow_limit_below_small, simp)+
  ultimately have ex: "current_remaining_amount 20 2 4 = Inr (Some 5)" by simp
  have curve: "\<exists>ta ra ts.
            calculate_nicotine_decay d dose_amount half_life time_diff future_time time_points
              = Inr (ta, ra, ts)
            \<and> length ta = nat time_points \<and> length ra = nat time_points
            \<and> (\<forall>i < nat time_points.
                  ta ! i = real i * (time_diff + future_time) / of_int (time_points - 1)
                  \<and> ra ! i = Some (amount (ta ! i)))"
  proof (intro exI conjI allI impI)
    show "calculate_nicotine_decay d dose_amount half_life time_diff future_time time_points
           = Inr (ta, map (remaining_at dose_amount half_life) ta,
                  map (\<lambda>hr. d + timedelta_hours hr) ta)"
      by (rule calc)
    show "length ta = nat time_points" by (rule len)
    show "length (map (remaining_at dose_amount half_life) ta) = nat time_points"
      by (simp add: len)
    fix i assume i: "i < nat time_points"
    show "ta ! i = real i * (time_diff + future_time) / of_int (time_points - 1)"
      using pt [OF i] by (rule conjunct1)
    show "map (remaining_at dose_amount half_life) ta ! i = Some (amount (ta ! i))"
      using pt [OF i] by (rule conjunct2)
  qed
  from curve scalar ex show ?thesis by (intro conjI)
qed

theorem C1_decay_formula_witness:
  "\<exists>ta ra ts.
     calculate_nicotine_decay (738000 * us_per_day) 20 2 0 4 3 = Inr (ta, ra, ts)
     \<and> length ta = 3 \<and> length ra = 3
     \<and> ta ! 0 = 0 \<and> ta ! 1 = 2 \<and> ta ! 2 = 4
     \<and> ra ! 0 = Some 20 \<and> ra ! 1 = Some 10 \<and> ra ! 2 = Some 5"
proof -
  have h: "(0::real) \<le> 20" "(20::real) \<le> max_double" "(0::real) < 2" "(0::real) \<le> 0"
    "(0::real) \<le> 4" "(2::int) \<le> 3"
    using max_double_large by simp_all
  have v: "valid_datetime (738000 * us_per_day)"
    "valid_datetime (738000 * us_per_day + timedelta_hours (0 + 4))"
    using timedelta_hours_of_int [of 4]
    by (simp_all add: valid_datetime_def us_per_day_def us_per_hour_def)
  have p: "(1 / 2 :: real) powr (2 / 2) = 1 / 2" "(1 / 2 :: real) powr (4 / 2) = 1 / 4"
    by (simp_all add: power2_eq_square)
  have u: "underflow_limit < 1" "underflow_limit < 20" "underflow_limit < 1 / 2"
    "underflow_limit < 10" "underflow_limit < 1 / 4" "underflow_limit < 5"
    by (rule underflow_limit_below_small, simp)+
  from C1_decay_formula [OF h v]
  obtain ta ra ts where
    c: "calculate_nicotine_decay (738000 * us_per_day) 20 2 0 4 3 = Inr (ta, ra, ts)"
    and len: "length ta = nat 3" "length ra = nat 3"
    and pt: "\<forall>i < nat 3. ta ! i = real i * (0 + 4) / of_int (3 - 1)
        \<and> ra ! i = Some (if underflow_limit < (1 / 2) powr (ta ! i / 2)
                                \<and> underflow_limit < 20 * (1 / 2) powr (ta ! i / 2)
                             then 20 * (1 / 2) powr (ta ! i / 2) else 0)"
    by blast
  have t: "ta ! 0 = 0" "ta ! 1 = 2" "ta ! 2 = 4" using pt by simp_all
  have "ra ! 0 = Some 20" using pt t(1) u by simp
  moreover have "ra ! 1 = Some 10" using pt t(2) p u by simp
  moreover have "ra ! 2 = Some 5" using pt t(3) p u by simp
  ultimately show ?thesis using c len t by simp
qed



text \<open>
  Claim C3, as stated, fails: with 50 sample points, no elapsed time and a horizon of 10^8
  hours, the last timestamps lie after year 9999, line 98 raises \<open>OverflowError\<close> and no
  sample sequence is produced.
\<close>

theorem C3_counterexample:
  "(2::int) \<le> 50 \<and> (0::real) \<le> 0 \<and> (0::real) \<le> 100000000
   \<and> calculate_nicotine_decay (738000 * us_per_day) 20 2 0 100000000 50 = Inl OverflowError"
proof -
  have td: "timedelta_hours 100000000 = 100000000 * us_per_hour"
    using timedelta_hours_of_int [of 100000000] by simp
  have "plus_hours (738000 * us_per_day) (0 + 100000000) = Inl OverflowError"
    by (simp add: plus_hours_def Let_def td timedelta_in_range_def valid_datetime_def
        us_per_day_def us_per_hour_def)
  then have "calculate_nicotine_decay (738000 * us_per_day) 20 2 0 100000000 50
               = Inl OverflowError"
    by (intro decay_overflows) simp_all
  then show ?thesis by simp
qed

text \<open>
  Claim C3, amended. With at least two sample points and a non-negative span that ends at a
  \<open>datetime\<close> that exists, the curve has exactly \<open>time_points\<close> samples, starts at elapsed
  time 0, ends at \<open>time_diff + future_time\<close>, and consecutive samples are
  \<open>(time_diff + future_time) / (time_points - 1)\<close> apart. Each timestamp is the dose time plus
  \<open>timedelta(hours = elapsed_hours)\<close>: a \<open>datetime\<close> counts whole microseconds, so it is
  within half a microsecond of the dose time plus the elapsed hours.
\<close>

theorem C3_sample_sequence:
  assumes "2 \<le> time_points" and "0 \<le> time_diff + future_time"
    and "valid_datetime d"
    and "valid_datetime (d + timedelta_hours (time_diff + future_time))"
  shows "\<exists>ta ra ts.
           calculate_nicotine_decay d dose_amount half_life time_diff future_time time_points
             = Inr (ta, ra, ts)
           \<and> length ta = nat time_points \<and> length ra = nat time_points
           \<and> length ts = nat time_points
           \<and> ta ! 0 = 0
           \<and> last ta = time_diff + future_time
           \<and> (\<forall>i. Suc i < nat time_points \<longrightarrow>
                 ta ! Suc i - ta ! i = (time_diff + future_time) / of_int (time_points - 1))
           \<and> (\<forall>i < nat time_points.
                 ts ! i = d + timedelta_hours (ta ! i)
                 \<and> \<bar>of_int (ts ! i - d) - ta ! i * of_int us_per_hour\<bar> \<le> 1 / 2)"
proof -
  let ?n = "nat time_points"
  let ?total = "time_diff + future_time"
  have n: "2 \<le> ?n" using assms(1) by simp
  have n0: "0 \<le> time_points" using assms(1) by simp
  obtain ta where lin: "linspace 0 ?total time_points = Inr ta" and len: "length ta = ?n"
    using linspace_Inr [OF n0] by blast
  have nth: "ta ! i = real i * ?total / of_int (time_points - 1)" if "i < ?n" for i
    by (rule time_array_nth [OF assms(1) lin that])
  have first: "ta ! 0 = 0" using n by (simp add: nth)
  have lst: "last ta = ?total" by (rule linspace_last [OF assms(1) lin])
  have step: "ta ! Suc i - ta ! i = ?total / of_int (time_points - 1)" if "Suc i < ?n" for i
  proof -
    have "ta ! Suc i = (real i * ?total + ?total) / of_int (time_points - 1)"
      using that by (simp add: nth distrib_right)
    moreover have "ta ! i = real i * ?total / of_int (time_points - 1)"
      using that by (simp add: nth)
    ultimately show ?thesis by (simp add: add_divide_distrib)
  qed
  have stamps: "map (\<lambda>hr. d + timedelta_hours hr) ta ! i = d + timedelta_hours (ta ! i)
      \<and> \<bar>of_int (map (\<lambda>hr. d + timedelta_hours hr) ta ! i - d) - ta ! i * of_int us_per_hour\<bar> \<le> 1 / 2"
    if "i < ?n" for i
    using that timedelta_hours_error [of "ta ! i"] by (simp add: len)
  have "calculate_nicotine_decay d dose_amount half_life time_diff future_time time_points
          = Inr (ta, map (remaining_at dose_amount half_life) ta,
                 map (\<lambda>hr. d + timedelta_hours hr) ta)"
    by (rule decay_returns [OF lin assms(2,3,4)])
  moreover have "length (map (remaining_at dose_amount half_life) ta) = ?n"
    by (simp add: len)
  moreover have "length (map (\<lambda>hr. d + timedelta_hours hr) ta) = ?n"
    by (simp add: len)
  ultimately show ?thesis
    using len first lst step stamps by blast
qed

theorem C3_sample_sequence_witness:
  "\<exists>ta ra ts.
     calculate_nicotine_decay (738000 * us_per_day) 20 2 1 24 50 = Inr (ta, ra, ts)
     \<and> length ta = 50 \<and> length ra = 50 \<and> length ts = 50
     \<and> ta ! 0 = 0
     \<and> last ta = 25
     \<and> ta ! 1 - ta ! 0 = 25 / 49
     \<and> ts ! 49 = 738000 * us_per_day + timedelta_hours (ta ! 49)"
proof -
  have v: "valid_datetime (738000 * us_per_day)"
    "valid_datetime (738000 * us_per_day + timedelta_hours (1 + 24))"
    using timedelta_hours_of_int [of 25]
    by (simp_all add: valid_datetime_def us_per_day_def us_per_hour_def)
  have h: "(2::int) \<le> 50" "(0::real) \<le> 1 + 24" by simp_all
  from C3_sample_sequence [OF h v, of 20 2]
  obtain ta ra ts where
    c: "calculate_nicotine_decay (738000 * us_per_day) 20 2 1 24 50 = Inr (ta, ra, ts)"
    and len: "length ta = nat 50" "length ra = nat 50" "length ts = nat 50"
    and first: "ta ! 0 = 0" and lst: "last ta = 1 + 24"
    and step: "\<forall>i. Suc i < nat 50 \<longrightarrow> ta ! Suc i - ta ! i = (1 + 24) / of_int (50 - 1)"
    and st: "\<forall>i < nat 50. ts ! i = 738000 * us_per_day + timedelta_hours (ta ! i)
                 \<and> \<bar>of_int (ts ! i - 738000 * us_per_day) - ta ! i * of_int us_per_hour\<bar> \<le> 1 / 2"
    by blast
  have "ta ! 1 - ta ! 0 = 25 / 49" using step [rule_format, of 0] by simp
  moreover have "ts ! 49 = 738000 * us_per_day + timedelta_hours (ta ! 49)"
    using st [rule_format, of 49] by simp
  ultimately show ?thesis using c len first lst by simp
qed




text \<open>
  Claim C5. For a dose between 0 and the largest double and a positive half-life, the scalar at
  any non-negative elapsed time, and every amount of any curve the evaluator returns for a
  non-negative span, lies between 0 and the dose. Nothing is clamped: the amount is the value
  of the formula, or \<open>0.0\<close> once the power or the product is at or below the underflow
  limit of a double. The evaluator does return a curve whenever the span ends at a
  \<open>datetime\<close> that exists.
\<close>

theorem C5_bounds:
  fixes dose_amount half_life time_diff future_time :: real
  assumes "0 \<le> dose_amount" and "dose_amount \<le> max_double" and "0 < half_life"
  shows "(0 \<le> t \<longrightarrow>
            (\<exists>r. current_remaining_amount dose_amount half_life t = Inr (Some r)
                 \<and> 0 \<le> r \<and> r \<le> dose_amount
                 \<and> (r = dose_amount * (1 / 2) powr (t / half_life)
                     \<or> (r = 0 \<and> ((1 / 2) powr (t / half_life) \<le> underflow_limit
                                   \<or> dose_amount * (1 / 2) powr (t / half_life)
                                        \<le> underflow_limit)))))
         \<and> (calculate_nicotine_decay d dose_amount half_life time_diff future_time time_points
               = Inr (ta, ra, ts)
             \<and> 0 \<le> time_diff + future_time \<longrightarrow>
               length ra = length ta
               \<and> (\<forall>i < length ta.
                     \<exists>r. ra ! i = Some r \<and> 0 \<le> ta ! i \<and> 0 \<le> r \<and> r \<le> dose_amount
                         \<and> (r = dose_amount * (1 / 2) powr (ta ! i / half_life)
                             \<or> (r = 0
                                 \<and> ((1 / 2) powr (ta ! i / half_life) \<le> underflow_limit
                                     \<or> dose_amount * (1 / 2) powr (ta ! i / half_life)
                                          \<le> underflow_limit)))))
         \<and> (0 \<le> time_points \<and> 0 \<le> time_diff + future_time \<and> valid_datetime d
              \<and> valid_datetime (d + timedelta_hours (time_diff + future_time)) \<longrightarrow>
               (\<exists>ta ra ts.
                  calculate_nicotine_decay d dose_amount half_life time_diff future_time
                    time_points = Inr (ta, ra, ts)
                  \<and> length ra = nat time_points))"
proof -
  have scalar: "\<exists>r. current_remaining_amount dose_amount half_life t = Inr (Some r)
                 \<and> 0 \<le> r \<and> r \<le> dose_amount
                 \<and> (r = dose_amount * (1 / 2) powr (t / half_life)
                     \<or> (r = 0 \<and> ((1 / 2) powr (t / half_life) \<le> underflow_limit
                                   \<or> dose_amount * (1 / 2) powr (t / half_life)
                                        \<le> underflow_limit)))"
    if t: "0 \<le> t"
    using current_remaining_amount_stored [OF assms(1,2,3) t]
      stored_amount_bounds [OF assms(1,3) t]
    by blast
  have returned: "length ra = length ta
               \<and> (\<forall>i < length ta.
                     \<exists>r. ra ! i = Some r \<and> 0 \<le> ta ! i \<and> 0 \<le> r \<and> r \<le> dose_amount
                         \<and> (r = dose_amount * (1 / 2) powr (ta ! i / half_life)
                             \<or> (r = 0
                                 \<and> ((1 / 2) powr (ta ! i / half_life) \<le> underflow_limit
                                     \<or> dose_amount * (1 / 2) powr (ta ! i / half_life)
                                          \<le> underflow_limit))))"
    if a: "calculate_nicotine_decay d dose_amount half_life time_diff future_time time_points
               = Inr (ta, ra, ts)
             \<and> 0 \<le> time_diff + future_time"
  proof -
    from a have calc: "calculate_nicotine_decay d dose_amount half_life time_diff future_time
                     time_points = Inr (ta, ra, ts)"
      and tot: "0 \<le> time_diff + future_time" by simp_all
    note r = decay_returned [OF calc]
    have pt: "\<exists>r. ra ! i = Some r \<and> 0 \<le> ta ! i \<and> 0 \<le> r \<and> r \<le> dose_amount
                         \<and> (r = dose_amount * (1 / 2) powr (ta ! i / half_life)
                             \<or> (r = 0
                                 \<and> ((1 / 2) powr (ta ! i / half_life) \<le> underflow_limit
                                     \<or> dose_amount * (1 / 2) powr (ta ! i / half_life)
                                          \<le> underflow_limit)))"
      if i: "i < length ta" for i
    proof -
      have "ta ! i \<in> set ta" using i by simp
      then have t: "0 \<le> ta ! i" by (rule linspace_nonneg [OF r(1) tot])
      have "ra ! i = remaining_at dose_amount half_life (ta ! i)" using r(2) i by simp
      then show ?thesis
        using remaining_at_stored [OF assms(1,2,3) t] stored_amount_bounds [OF assms(1,3) t] t
        by simp
    qed
    have "length ra = length ta" using r(2) by simp
    then show ?thesis using pt by blast
  qed
  have exists: "\<exists>ta ra ts.
                  calculate_nicotine_decay d dose_amount half_life time_diff future_time
                    time_points = Inr (ta, ra, ts)
                  \<and> length ra = nat time_points"
    if a: "0 \<le> time_points \<and> 0 \<le> time_diff + future_time \<and> valid_datetime d
              \<and> valid_datetime (d + timedelta_hours (time_diff + future_time))"
  proof -
    from a have n0: "0 \<le> time_points" by simp
    obtain ta' where lin: "linspace 0 (time_diff + future_time) time_points = Inr ta'"
      and len: "length ta' = nat time_points"
      using linspace_Inr [OF n0] by blast
    have "calculate_nicotine_decay d dose_amount half_life time_diff future_time time_points
          = Inr (ta', map (remaining_at dose_amount half_life) ta',
                 map (\<lambda>hr. d + timedelta_hours hr) ta')"
      using a by (intro decay_returns [OF lin]) simp_all
    then show ?thesis using len by simp
  qed
  from scalar returned exists show ?thesis by blast
qed

theorem C5_bounds_witness:
  "(\<exists>r. current_remaining_amount 20 2 4 = Inr (Some r) \<and> 0 \<le> r \<and> r \<le> 20)
   \<and> (\<exists>ta ra ts.
         calculate_nicotine_decay (738000 * us_per_day) 20 2 4 24 50 = Inr (ta, ra, ts)
         \<and> length ra = 50
         \<and> (\<exists>r. ra ! 49 = Some r \<and> 0 \<le> r \<and> r \<le> 20))"
proof -
  have h: "(0::real) \<le> 20" "(20::real) \<le> max_double" "(0::real) < 2"
    using max_double_large by simp_all
  have v: "valid_datetime (738000 * us_per_day)"
    "valid_datetime (738000 * us_per_day + timedelta_hours (4 + 24))"
    using timedelta_hours_of_int [of 28]
    by (simp_all add: valid_datetime_def us_per_day_def us_per_hour_def)
  have scalar: "\<exists>r. current_remaining_amount 20 2 4 = Inr (Some r) \<and> 0 \<le> r \<and> r \<le> 20"
    using C5_bounds [where t = 4, OF h, THEN conjunct1] by auto
  obtain ta ra ts where
    calc: "calculate_nicotine_decay (738000 * us_per_day) 20 2 4 24 50 = Inr (ta, ra, ts)"
    and len: "length ra = nat 50"
    using C5_bounds [where d = "738000 * us_per_day" and time_diff = 4 and future_time = 24
        and time_points = 50, OF h, THEN conjunct2, THEN conjunct2] v
    by auto
  have "length ra = length ta
        \<and> (\<forall>i < length ta.
              \<exists>r. ra ! i = Some r \<and> 0 \<le> ta ! i \<and> 0 \<le> r \<and> r \<le> 20
                  \<and> (r = 20 * (1 / 2) powr (ta ! i / 2)
                      \<or> (r = 0
                          \<and> ((1 / 2) powr (ta ! i / 2) \<le> underflow_limit
                              \<or> 20 * (1 / 2) powr (ta ! i / 2) \<le> underflow_limit))))"
    using C5_bounds [where d = "738000 * us_per_day" and time_diff = 4 and future_time = 24
        and time_points = 50 and ta = ta and ra = ra and ts = ts,
        OF h, THEN conjunct2, THEN conjunct1] calc
    by simp
  then have all: "\<forall>i < length ra.
              \<exists>r. ra ! i = Some r \<and> 0 \<le> ta ! i \<and> 0 \<le> r \<and> r \<le> 20
                  \<and> (r = 20 * (1 / 2) powr (ta ! i / 2)
                      \<or> (r = 0
                          \<and> ((1 / 2) powr (ta ! i / 2) \<le> underflow_limit
                              \<or> 20 * (1 / 2) powr (ta ! i / 2) \<le> underflow_limit)))"
    by simp
  have "49 < length ra" using len by simp
  from all [rule_format, OF this]
  have "\<exists>r. ra ! 49 = Some r \<and> 0 \<le> r \<and> r \<le> 20" by blast
  then show ?thesis using scalar calc len by auto
qed



text \<open>
  Claim C7, as stated, fails: one hour after the dose, with a horizon of 10^8 hours, the first
  milestone lies inside the sampled span, yet the script raises \<open>OverflowError\<close> at line 98
  and places no marker.
\<close>

theorem C7_counterexample:
  "run 738001 (738001 * us_per_day) 20 738000 (time_hm 23 0) 100000000 50
     = Inl (Raised OverflowError)
   \<and> datetime_combine 738000 (time_hm 23 0)
       \<le> milestone_time (datetime_combine 738000 (time_hm 23 0)) (milestones ! 0)
   \<and> milestone_time (datetime_combine 738000 (time_hm 23 0)) (milestones ! 0)
       \<le> datetime_combine 738000 (time_hm 23 0) + timedelta_hours (1 + 100000000)"
proof -
  have h: "timedelta_hours 100000001 = 100000001 * us_per_hour"
    using timedelta_hours_of_int [of 100000001] by simp
  show ?thesis
    using run_overflows_example
    by (simp add: first_milestone h us_per_hour_def)
qed

text \<open>
  Claim C7, amended. In a run that passes both guards with at least two sample points and a
  non-negative horizon, and in which the end of the sampled span, the end of the horizon and
  the last milestone are datetimes that exist: the last sampled elapsed time is
  \<open>time_diff + future_time\<close>; a milestone of the table gets a chart marker exactly when its
  time lies between the dose time and the dose time plus that span, and an ``in ... hours''
  line exactly when its time is after the current time and at most \<open>future_time\<close> later. The
  windows differ: one hour after the dose, with a horizon of 24 hours, the first milestone has
  a marker and no ``in ... hours'' line.
\<close>

theorem C7_visibility_windows:
  fixes dose_amount future_time :: real
  assumes "\<not> (dose_date = today \<and> dose_time = time_hm 0 0)"
    and "datetime_combine dose_date dose_time \<le> now"
    and "2 \<le> time_points"
    and "0 \<le> future_time"
  defines "dose_datetime \<equiv> datetime_combine dose_date dose_time"
  defines "total_plotted_hours \<equiv> total_seconds (now - dose_datetime) / 3600 + future_time"
  assumes vd: "valid_datetime dose_datetime"
    and ve: "valid_datetime (dose_datetime + timedelta_hours total_plotted_hours)"
    and vm: "valid_datetime (dose_datetime + timedelta_hours 720)"
    and vh: "valid_datetime (now + timedelta_hours future_time)"
  shows "(\<exists>out. run today now dose_amount dose_date dose_time future_time time_points = Inr out
            \<and> last (curve_hours out) = total_plotted_hours
            \<and> (\<forall>m \<in> set milestones.
                  (milestone_time dose_datetime m, label m) \<in> set (markers out)
                  \<longleftrightarrow> dose_datetime \<le> milestone_time dose_datetime m
                      \<and> milestone_time dose_datetime m
                          \<le> dose_datetime + timedelta_hours total_plotted_hours)
            \<and> (\<forall>m \<in> set milestones.
                  (\<exists>h. Upcoming (label m) h (milestone_time dose_datetime m) \<in> set (lines out))
                  \<longleftrightarrow> now < milestone_time dose_datetime m
                      \<and> milestone_time dose_datetime m \<le> now + timedelta_hours future_time))
         \<and> (\<exists>out. run 738001 (738001 * us_per_day) 20 738000 (time_hm 23 0) 24 50 = Inr out
                \<and> (datetime_combine 738000 (time_hm 23 0) + 1188000000,
                     ''Heart Rate Normalizes'') \<in> set (markers out)
                \<and> (\<forall>h. Upcoming ''Heart Rate Normalizes'' h
                           (datetime_combine 738000 (time_hm 23 0) + 1188000000)
                         \<notin> set (lines out)))"
proof -
  have general: "\<exists>out. run today now dose_amount dose_date dose_time future_time time_points
                          = Inr out
            \<and> last (curve_hours out) = total_plotted_hours
            \<and> (\<forall>m \<in> set milestones.
                  (milestone_time dose_datetime m, label m) \<in> set (markers out)
                  \<longleftrightarrow> dose_datetime \<le> milestone_time dose_datetime m
                      \<and> milestone_time dose_datetime m
                          \<le> dose_datetime + timedelta_hours total_plotted_hours)
            \<and> (\<forall>m \<in> set milestones.
                  (\<exists>h. Upcoming (label m) h (milestone_time dose_datetime m) \<in> set (lines out))
                  \<longleftrightarrow> now < milestone_time dose_datetime m
                      \<and> milestone_time dose_datetime m \<le> now + timedelta_hours future_time)"
    using run_windows [OF assms(1,2,3,4), of dose_amount] vd ve vm vh
    unfolding dose_datetime_def total_plotted_hours_def by blast
  let ?D = "datetime_combine 738000 (time_hm 23 0)"
  obtain out where
    r: "run 738001 (738001 * us_per_day) 20 738000 (time_hm 23 0) 24 50 = Inr out"
    and mk: "\<forall>m \<in> set milestones.
                  (milestone_time ?D m, label m) \<in> set (markers out)
                  \<longleftrightarrow> ?D \<le> milestone_time ?D m
                      \<and> milestone_time ?D m \<le> ?D + timedelta_hours 25"
    and up: "\<forall>m \<in> set milestones.
                  (\<exists>h. Upcoming (label m) h (milestone_time ?D m) \<in> set (lines out))
                  \<longleftrightarrow> 738001 * us_per_day < milestone_time ?D m
                      \<and> milestone_time ?D m \<le> 738001 * us_per_day + timedelta_hours 24"
    using run_example by blast
  have d: "?D = 738000 * us_per_day + 23 * us_per_hour"
    by (simp add: datetime_combine_def time_hm_def us_per_day_def us_per_hour_def)
  have t25: "timedelta_hours 25 = 25 * us_per_hour"
    using timedelta_hours_of_int [of 25] by simp
  have "(milestone_time ?D (milestones ! 0), label (milestones ! 0)) \<in> set (markers out)"
    using mk [rule_format, OF first_milestone(1)]
    by (simp add: first_milestone(3) t25 us_per_hour_def)
  then have placed: "(?D + 1188000000, ''Heart Rate Normalizes'') \<in> set (markers out)"
    by (simp add: first_milestone)
  have "\<not> (\<exists>h. Upcoming (label (milestones ! 0)) h (milestone_time ?D (milestones ! 0))
                 \<in> set (lines out))"
    using up [rule_format, OF first_milestone(1)]
    by (simp add: first_milestone(3) d us_per_day_def us_per_hour_def)
  then have absent: "\<forall>h. Upcoming ''Heart Rate Normalizes'' h (?D + 1188000000)
                         \<notin> set (lines out)"
    by (simp add: first_milestone)
  from general r placed absent show ?thesis by blast
qed

theorem C7_visibility_windows_witness:
  "\<exists>out. run 738001 (738001 * us_per_day) 20 738000 (time_hm 23 0) 24 50 = Inr out
          \<and> last (curve_hours out) = 25
          \<and> (datetime_combine 738000 (time_hm 23 0) + 8 * us_per_hour,
               ''Oxygen Levels Normalize'') \<in> set (markers out)
          \<and> (\<exists>h. Upcoming ''Oxygen Levels Normalize'' h
                     (datetime_combine 738000 (time_hm 23 0) + 8 * us_per_hour)
                   \<in> set (lines out))"
proof -
  let ?D = "datetime_combine 738000 (time_hm 23 0)"
  have d: "?D = 738000 * us_per_day + 23 * us_per_hour"
    by (simp add: datetime_combine_def time_hm_def us_per_day_def us_per_hour_def)
  have td: "total_seconds (738001 * us_per_day - ?D) / 3600 + 24 = 25"
    by (simp add: d total_seconds_def us_per_day_def us_per_hour_def)
  have t: "timedelta_hours 25 = 25 * us_per_hour" "timedelta_hours 720 = 720 * us_per_hour"
    "timedelta_hours 24 = 24 * us_per_hour"
    using timedelta_hours_of_int [of 25] timedelta_hours_of_int [of 720]
      timedelta_hours_of_int [of 24] by simp_all
  have ns: "\<not> ((738000::int) = 738001 \<and> time_hm 23 0 = time_hm 0 0)" by simp
  have le: "?D \<le> 738001 * us_per_day"
    by (simp add: d us_per_day_def us_per_hour_def)
  have n: "(2::int) \<le> 50" and f: "(0::real) \<le> 24" by simp_all
  have vd: "valid_datetime ?D"
    by (simp add: d valid_datetime_def us_per_day_def us_per_hour_def)
  have ve: "valid_datetime (?D + timedelta_hours (total_seconds (738001 * us_per_day - ?D) / 3600
                                                    + 24))"
    unfolding td by (simp add: d t valid_datetime_def us_per_day_def us_per_hour_def)
  have vm: "valid_datetime (?D + timedelta_hours 720)"
    by (simp add: d t valid_datetime_def us_per_day_def us_per_hour_def)
  have vh: "valid_datetime (738001 * us_per_day + timedelta_hours 24)"
    by (simp add: t valid_datetime_def us_per_day_def us_per_hour_def)
  from C7_visibility_windows [OF ns le n f vd ve vm vh, of 20, THEN conjunct1]
  obtain out where
    r: "run 738001 (738001 * us_per_day) 20 738000 (time_hm 23 0) 24 50 = Inr out"
    and lst: "last (curve_hours out)
                = total_seconds (738001 * us_per_day - ?D) / 3600 + 24"
    and mk: "\<forall>m \<in> set milestones.
                  (milestone_time ?D m, label m) \<in> set (markers out)
                  \<longleftrightarrow> ?D \<le> milestone_time ?D m
                      \<and> milestone_time ?D m
                          \<le> ?D + timedelta_hours (total_seconds (738001 * us_per_day - ?D) / 3600
                                                    + 24)"
    and up: "\<forall>m \<in> set milestones.
                  (\<exists>h. Upcoming (label m) h (milestone_time ?D m) \<in> set (lines out))
                  \<longleftrightarrow> 738001 * us_per_day < milestone_time ?D m
                      \<and> milestone_time ?D m \<le> 738001 * us_per_day + timedelta_hours 24"
    by blast
  have w1: "?D \<le> ?D + 8 * us_per_hour \<and> ?D + 8 * us_per_hour \<le> ?D + 25 * us_per_hour"
    by (simp add: us_per_hour_def)
  have placed: "(?D + 8 * us_per_hour, ''Oxygen Levels Normalize'') \<in> set (markers out)"
    using mk [rule_format, OF second_milestone(1)] w1
    unfolding td t second_milestone(2,3) by blast
  have w2: "738001 * us_per_day < ?D + 8 * us_per_hour
            \<and> ?D + 8 * us_per_hour \<le> 738001 * us_per_day + 24 * us_per_hour"
    by (simp add: d us_per_day_def us_per_hour_def)
  have listed: "\<exists>h. Upcoming ''Oxygen Levels Normalize'' h (?D + 8 * us_per_hour)
                         \<in> set (lines out)"
    using up [rule_format, OF second_milestone(1)] w2
    unfolding t second_milestone(2,3) by blast
  from r lst td placed listed show ?thesis by auto
qed

text \<open>
  Claim C8. When the date widget holds today's date and the time widget holds 00:00, the run
  stops with the prompt and renders nothing, whatever the other inputs and the clock are; and
  the prompt appears for no other date and time.
\<close>

theorem C8_sentinel_withheld:
  "run today now dose_amount today (time_hm 0 0) future_time time_points
     = Inl (Stopped ''Please enter the date and time of your last nicotine use.'')
   \<and> (\<forall>out. run today now dose_amount today (time_hm 0 0) future_time time_points \<noteq> Inr out)
   \<and> (run today now dose_amount dose_date dose_time future_time time_points
         = Inl (Stopped ''Please enter the date and time of your last nicotine use.'')
       \<longleftrightarrow> dose_date = today \<and> dose_time = time_hm 0 0)"
  using run_sentinel [of today now dose_amount future_time time_points]
    run_not_sentinel [of dose_date today dose_time now dose_amount future_time time_points]
  by auto

theorem C8_sentinel_withheld_witness:
  "run 7 (7 * us_per_day + 10 * us_per_hour) 20 7 (time_hm 0 0) 24 500
     = Inl (Stopped ''Please enter the date and time of your last nicotine use.'')
   \<and> run 7 (7 * us_per_day + 10 * us_per_hour) 20 6 (time_hm 0 0) 24 500
     \<noteq> Inl (Stopped ''Please enter the date and time of your last nicotine use.'')"
  using C8_sentinel_withheld [of 7 "7 * us_per_day + 10 * us_per_hour" 20 24 500 6 "time_hm 0 0"]
  by simp

text \<open>
  Claim C9, as stated, fails: a dose time that is not after the evaluation time is not always
  accepted. On day 7 at 10:00, with the widgets at day 7 and 00:00, the dose time is ten hours
  in the past and the run stops at the first guard. And a run that passes both guards, one
  hour after the dose, with a horizon of 10^8 hours, ends in \<open>OverflowError\<close> and renders
  nothing.
\<close>

theorem C9_counterexample:
  "datetime_combine 7 (time_hm 0 0) \<le> 7 * us_per_day + 10 * us_per_hour
   \<and> run 7 (7 * us_per_day + 10 * us_per_hour) 20 7 (time_hm 0 0) 24 500
       = Inl (Stopped ''Please enter the date and time of your last nicotine use.'')
   \<and> datetime_combine 738000 (time_hm 23 0) \<le> 738001 * us_per_day
   \<and> run 738001 (738001 * us_per_day) 20 738000 (time_hm 23 0) 100000000 50
       = Inl (Raised OverflowError)"
proof (intro conjI)
  show "datetime_combine 7 (time_hm 0 0) \<le> 7 * us_per_day + 10 * us_per_hour"
    by (simp add: datetime_combine_def time_hm_def us_per_day_def us_per_hour_def)
  show "run 7 (7 * us_per_day + 10 * us_per_hour) 20 7 (time_hm 0 0) 24 500
       = Inl (Stopped ''Please enter the date and time of your last nicotine use.'')"
    by (simp add: run_def)
  show "datetime_combine 738000 (time_hm 23 0) \<le> 738001 * us_per_day"
    by (simp add: datetime_combine_def time_hm_def us_per_day_def us_per_hour_def)
  show "run 738001 (738001 * us_per_day) 20 738000 (time_hm 23 0) 100000000 50
       = Inl (Raised OverflowError)"
    by (rule run_overflows_example)
qed

text \<open>
  Claim C9, amended. For inputs that pass the first guard: a dose time after the evaluation time
  stops the run with the invalid-input message; a dose time equal to or before the evaluation
  time lets the run complete, for any sample count from 1 on (the slider offers 50 to 1000) and
  any non-negative horizon, provided the end of the sampled span, the end of the horizon and
  the last milestone are datetimes that exist.
\<close>

theorem C9_future_dose_blocked:
  fixes dose_amount future_time :: real
  assumes "\<not> (dose_date = today \<and> dose_time = time_hm 0 0)"
  defines "dose_datetime \<equiv> datetime_combine dose_date dose_time"
  shows "(now < dose_datetime \<longrightarrow>
            run today now dose_amount dose_date dose_time future_time time_points
              = Inl (Stopped ''Last nicotine use time cannot be in the future.''))
         \<and> (dose_datetime \<le> now \<and> 1 \<le> time_points \<and> 0 \<le> future_time
              \<and> valid_datetime dose_datetime
              \<and> valid_datetime
                   (dose_datetime
                    + timedelta_hours (total_seconds (now - dose_datetime) / 3600 + future_time))
              \<and> valid_datetime (dose_datetime + timedelta_hours 720)
              \<and> valid_datetime (now + timedelta_hours future_time) \<longrightarrow>
              (\<exists>out. run today now dose_amount dose_date dose_time future_time time_points
                       = Inr out))"
proof (intro conjI impI)
  assume "now < dose_datetime"
  then show "run today now dose_amount dose_date dose_time future_time time_points
              = Inl (Stopped ''Last nicotine use time cannot be in the future.'')"
    unfolding dose_datetime_def by (rule run_future [OF assms(1)])
next
  assume a: "dose_datetime \<le> now \<and> 1 \<le> time_points \<and> 0 \<le> future_time
              \<and> valid_datetime dose_datetime
              \<and> valid_datetime
                   (dose_datetime
                    + timedelta_hours (total_seconds (now - dose_datetime) / 3600 + future_time))
              \<and> valid_datetime (dose_datetime + timedelta_hours 720)
              \<and> valid_datetime (now + timedelta_hours future_time)"
  show "\<exists>out. run today now dose_amount dose_date dose_time future_time time_points = Inr out"
    using run_proceeds [OF assms(1), of now time_points future_time dose_amount] a
    unfolding dose_datetime_def by blast
qed

theorem C9_future_dose_blocked_witness:
  "run 738001 (738001 * us_per_day) 20 738001 (time_hm 1 0) 24 500
     = Inl (Stopped ''Last nicotine use time cannot be in the future.'')
   \<and> (\<exists>out. run 738001 (738001 * us_per_day) 20 738000 (time_hm 23 0) 24 500 = Inr out)"
proof -
  let ?D = "datetime_combine 738000 (time_hm 23 0)"
  have d: "?D = 738000 * us_per_day + 23 * us_per_hour"
    by (simp add: datetime_combine_def time_hm_def us_per_day_def us_per_hour_def)
  have td: "total_seconds (738001 * us_per_day - ?D) / 3600 + 24 = 25"
    by (simp add: d total_seconds_def us_per_day_def us_per_hour_def)
  have t: "timedelta_hours 25 = 25 * us_per_hour" "timedelta_hours 720 = 720 * us_per_hour"
    "timedelta_hours 24 = 24 * us_per_hour"
    using timedelta_hours_of_int [of 25] timedelta_hours_of_int [of 720]
      timedelta_hours_of_int [of 24] by simp_all
  have ns1: "\<not> ((738001::int) = 738001 \<and> time_hm 1 0 = time_hm 0 0)"
    by (simp add: time_hm_def)
  have ns2: "\<not> ((738000::int) = 738001 \<and> time_hm 23 0 = time_hm 0 0)" by simp
  have future: "738001 * us_per_day < datetime_combine 738001 (time_hm 1 0)"
    by (simp add: datetime_combine_def time_hm_def us_per_day_def)
  have ok: "?D \<le> 738001 * us_per_day \<and> (1::int) \<le> 500 \<and> (0::real) \<le> 24
              \<and> valid_datetime ?D
              \<and> valid_datetime
                   (?D + timedelta_hours (total_seconds (738001 * us_per_day - ?D) / 3600 + 24))
              \<and> valid_datetime (?D + timedelta_hours 720)
              \<and> valid_datetime (738001 * us_per_day + timedelta_hours 24)"
    unfolding td by (simp add: d t valid_datetime_def us_per_day_def us_per_hour_def)
  show ?thesis
    using C9_future_dose_blocked [OF ns1, of "738001 * us_per_day" 20 24 500, THEN conjunct1]
      C9_future_dose_blocked [OF ns2, of "738001 * us_per_day" 20 24 500, THEN conjunct2]
      future ok
    by blast
qed

text \<open>
  Claim C10. The first guard looks at the widget values only, so a run with today's date and
  00:00 stops with the prompt for every clock reading, dose, horizon and sample count; and any
  well-formed time of day that combines with the chosen date to today's midnight is that
  sentinel. A dose at midnight of the current day is never evaluated.
\<close>

theorem C10_midnight_dose_never_evaluated:
  "(\<forall>now dose_amount future_time time_points.
      run today now dose_amount today (time_hm 0 0) future_time time_points
        = Inl (Stopped ''Please enter the date and time of your last nicotine use.''))
   \<and> (hour dose_time < 24 \<and> minute dose_time < 60 \<and> second dose_time < 60
        \<and> microsecond dose_time < 1000000
        \<and> datetime_combine dose_date dose_time = datetime_combine today (time_hm 0 0)
      \<longrightarrow> (\<forall>now dose_amount future_time time_points.
             run today now dose_amount dose_date dose_time future_time time_points
               = Inl (Stopped ''Please enter the date and time of your last nicotine use.'')))"
proof (intro conjI impI allI)
  fix now dose_amount future_time time_points
  show "run today now dose_amount today (time_hm 0 0) future_time time_points
        = Inl (Stopped ''Please enter the date and time of your last nicotine use.'')"
    by (rule run_sentinel)
next
  fix now dose_amount future_time time_points
  assume a: "hour dose_time < 24 \<and> minute dose_time < 60 \<and> second dose_time < 60
        \<and> microsecond dose_time < 1000000
        \<and> datetime_combine dose_date dose_time = datetime_combine today (time_hm 0 0)"
  then have "dose_date = today \<and> dose_time = time_hm 0 0"
    using datetime_combine_midnight [of dose_time dose_date today] by blast
  then show "run today now dose_amount dose_date dose_time future_time time_points
        = Inl (Stopped ''Please enter the date and time of your last nicotine use.'')"
    by (simp add: run_sentinel)
qed

theorem C10_midnight_dose_never_evaluated_witness:
  "run 7 (7 * us_per_day + 10 * us_per_hour) 20 7
       \<lparr>hour = 0, minute = 0, second = 0, microsecond = 0\<rparr> 24 500
     = Inl (Stopped ''Please enter the date and time of your last nicotine use.'')"
proof -
  have "hour \<lparr>hour = 0, minute = 0, second = 0, microsecond = 0\<rparr> < 24
        \<and> minute \<lparr>hour = 0, minute = 0, second = 0, microsecond = 0\<rparr> < 60
        \<and> second \<lparr>hour = 0, minute = 0, second = 0, microsecond = 0\<rparr> < 60
        \<and> microsecond \<lparr>hour = 0, minute = 0, second = 0, microsecond = 0\<rparr> < 1000000
        \<and> datetime_combine 7 \<lparr>hour = 0, minute = 0, second = 0, microsecond = 0\<rparr>
            = datetime_combine 7 (time_hm 0 0)"
    by (simp add: time_hm_def)
  then show ?thesis
    using C10_midnight_dose_never_evaluated
      [of 7 "\<lparr>hour = 0, minute = 0, second = 0, microsecond = 0\<rparr>" 7]
    by blast
qed

end
